theory Spec2Isabelle
  imports Main
begin

section \<open>Text, as the program sees it\<close>

text \<open>
  Files, paths and command-line arguments are byte strings, as on a POSIX system; a
  \<open>string\<close> of the model is such a byte string. The structure files the tool reads
  are ASCII text, where bytes and the characters of a Python \<open>str\<close> coincide.
\<close>

type_synonym path = string

definition newline :: char where
  "newline = CHR 0x0A"

definition carriage_return :: char where
  "carriage_return = CHR 0x0D"

text \<open>The pieces of a text cut after each line feed: each one ends with its line feed,
  except possibly the last.\<close>

fun split_lines :: "string \<Rightarrow> string list" where
  "split_lines [] = []"
| "split_lines (c # cs) =
     (if c = newline then [c] # split_lines cs
      else (case split_lines cs of [] \<Rightarrow> [[c]] | l # ls \<Rightarrow> (c # l) # ls))"

text \<open>A file opened with \<open>open(path, "r")\<close> is read with universal newlines: a carriage
  return followed by a line feed, and a carriage return alone, both reach the program
  as one line feed.\<close>

fun universal_newlines :: "string \<Rightarrow> string" where
  "universal_newlines [] = []"
| "universal_newlines [c] = (if c = carriage_return then [newline] else [c])"
| "universal_newlines (c # d # ds) =
     (if c = carriage_return then
        (if d = newline then newline # universal_newlines ds
         else newline # universal_newlines (d # ds))
      else c # universal_newlines (d # ds))"

text \<open>The lines \<open>for line in fin\<close> yields for a file with the given content.\<close>

definition file_lines :: "string \<Rightarrow> string list" where
  "file_lines content = split_lines (universal_newlines content)"

text \<open>\<open>str.isspace\<close> on one ASCII character: tab, line feed, vertical tab, form feed,
  carriage return, the four separators 0x1C..0x1F, and the blank.\<close>

definition isspace_char :: "char \<Rightarrow> bool" where
  "isspace_char c \<longleftrightarrow>
     c \<in> set [CHR 0x09, CHR 0x0A, CHR 0x0B, CHR 0x0C, CHR 0x0D,
              CHR 0x1C, CHR 0x1D, CHR 0x1E, CHR 0x1F, CHR 0x20]"

text \<open>\<open>s.strip()\<close>: leading and trailing whitespace removed.\<close>

definition strip :: "string \<Rightarrow> string" where
  "strip s = rev (dropWhile isspace_char (rev (dropWhile isspace_char s)))"

definition upper_char :: "char \<Rightarrow> char" where
  "upper_char c =
     (case map_of (zip ''abcdefghijklmnopqrstuvwxyz'' ''ABCDEFGHIJKLMNOPQRSTUVWXYZ'') c of
        None \<Rightarrow> c
      | Some u \<Rightarrow> u)"

text \<open>\<open>s.upper()\<close>.\<close>

definition upper :: "string \<Rightarrow> string" where
  "upper s = map upper_char s"

text \<open>\<open>s.startswith(p)\<close>, and \<open>s.startswith((p1, p2, ...))\<close> with a tuple of prefixes.\<close>

definition startswith :: "string \<Rightarrow> string \<Rightarrow> bool" where
  "startswith s p \<longleftrightarrow> take (length p) s = p"

definition startswith_any :: "string \<Rightarrow> string list \<Rightarrow> bool" where
  "startswith_any s ps \<longleftrightarrow> (\<exists>p \<in> set ps. startswith s p)"

text \<open>The slice \<open>s[a:b]\<close> for \<open>0 \<le> a \<le> b\<close>: out-of-range bounds are clipped.\<close>

definition slice :: "string \<Rightarrow> nat \<Rightarrow> nat \<Rightarrow> string" where
  "slice s a b = take (b - a) (drop a s)"

section \<open>The record filter: \<open>clean_pdb\<close>\<close>

datatype exn =
    RuntimeError string
  | TyperExit string
  | FileNotFoundError string

record filter_config =
  remove_waters :: bool
  remove_hetero :: bool
  keep_chains :: "string list option"
  keep_ligands :: "string list option"

record removal_summary =
  waters :: nat
  hetero_residues :: nat
  skipped_chains :: nat

text \<open>The loop's variables: the \<open>removed\<close> dictionary, what has been written to
  \<open>fout\<close> so far (one entry per \<open>fout.write\<close>), and the flag \<open>wrote_any\<close>.\<close>

record clean_state =
  removed :: removal_summary
  written :: "string list"
  wrote_any :: bool

text \<open>Lines 96 and 97: an absent or empty list of chains becomes \<open>None\<close>, an absent or
  empty list of ligands becomes the empty list; the entries are stripped and uppercased.\<close>

definition norm_keep_chains :: "string list option \<Rightarrow> string list option" where
  "norm_keep_chains kc =
     (case kc of
        None \<Rightarrow> None
      | Some cs \<Rightarrow> if cs = [] then None else Some (map (\<lambda>c. upper (strip c)) cs))"

definition norm_keep_ligands :: "string list option \<Rightarrow> string list" where
  "norm_keep_ligands kl =
     (case kl of
        None \<Rightarrow> []
      | Some ks \<Rightarrow> if ks = [] then [] else map (\<lambda>k. upper (strip k)) ks)"

definition record_prefixes :: "string list" where
  "record_prefixes = [''ATOM  '', ''HETATM'', ''TER'', ''END'']"

definition water_names :: "string list" where
  "water_names = [''HOH'', ''H2O'', ''WAT'']"

text \<open>\<open>line[21:22].strip() if len(line) >= 22 else ""\<close>\<close>

definition chain_id_of :: "string \<Rightarrow> string" where
  "chain_id_of line = (if length line \<ge> 22 then strip (slice line 21 22) else [])"

text \<open>\<open>line[17:20].strip().upper() if len(line) >= 20 else ""\<close>\<close>

definition resname_of :: "string \<Rightarrow> string" where
  "resname_of line = (if length line \<ge> 20 then upper (strip (slice line 17 20)) else [])"

text \<open>\<open>line[0:6].strip()\<close>\<close>

definition rec_of :: "string \<Rightarrow> string" where
  "rec_of line = strip (slice line 0 6)"

text \<open>The condition of line 107, \<open>keep_chains and chain_id and chain_id.upper() not in
  keep_chains\<close>, on the normalised list.\<close>

definition chain_rejected :: "string list option \<Rightarrow> string \<Rightarrow> bool" where
  "chain_rejected kc chain_id \<longleftrightarrow>
     (case kc of
        None \<Rightarrow> False
      | Some cs \<Rightarrow> cs \<noteq> [] \<and> chain_id \<noteq> [] \<and> upper chain_id \<notin> set cs)"

text \<open>One iteration of the loop of lines 102 to 122.\<close>

definition clean_line ::
  "bool \<Rightarrow> bool \<Rightarrow> string list option \<Rightarrow> string list \<Rightarrow> string \<Rightarrow> clean_state \<Rightarrow> clean_state"
where
  "clean_line rm_waters rm_hetero kc kl line s =
     (if startswith_any line record_prefixes then
        (if chain_rejected kc (chain_id_of line) then
           s\<lparr>removed := (removed s)\<lparr>skipped_chains := skipped_chains (removed s) + 1\<rparr>\<rparr>
         else if rm_waters \<and> resname_of line \<in> set water_names then
           s\<lparr>removed := (removed s)\<lparr>waters := waters (removed s) + 1\<rparr>\<rparr>
         else if rm_hetero \<and> rec_of line = ''HETATM'' \<and> resname_of line \<notin> set kl then
           s\<lparr>removed := (removed s)\<lparr>hetero_residues := hetero_residues (removed s) + 1\<rparr>\<rparr>
         else
           s\<lparr>written := written s @ [line], wrote_any := True\<rparr>)
      else s)"

definition clean_init :: clean_state where
  "clean_init =
     \<lparr>removed = \<lparr>waters = 0, hetero_residues = 0, skipped_chains = 0\<rparr>,
      written = [], wrote_any = False\<rparr>"

definition clean_loop :: "filter_config \<Rightarrow> string list \<Rightarrow> clean_state \<Rightarrow> clean_state" where
  "clean_loop cfg ls s =
     fold (clean_line (remove_waters cfg) (remove_hetero cfg)
             (norm_keep_chains (keep_chains cfg)) (norm_keep_ligands (keep_ligands cfg))) ls s"

text \<open>The message of line 124; its dash is U+2014, here in UTF-8.\<close>

definition empty_result_message :: string where
  "empty_result_message =
     ''No ATOM/HETATM records written '' @ [CHR 0xE2, CHR 0x80, CHR 0x94]
       @ '' check input or filters.''"

text \<open>
  \<open>clean_pdb\<close> on a file system, a map from paths to contents. The source is opened
  first (a missing source raises before the destination is touched), then the
  destination is opened for writing, which creates or truncates it; only then are lines
  read, in text mode. When both paths name the same file the reader therefore finds it
  empty. The writes reach the destination when the \<open>with\<close> block closes it, before
  line 123; on a POSIX system the text-mode writer stores a line feed as it is.
\<close>

definition clean_pdb ::
  "(path \<rightharpoonup> string) \<Rightarrow> path \<Rightarrow> path \<Rightarrow> filter_config
     \<Rightarrow> (path \<rightharpoonup> string) \<times> (exn + removal_summary)"
where
  "clean_pdb fs input_pdb output_pdb cfg =
     (case fs input_pdb of
        None \<Rightarrow> (fs, Inl (FileNotFoundError input_pdb))
      | Some content \<Rightarrow>
          (let fs1 = fs(output_pdb \<mapsto> []);
               src = (if input_pdb = output_pdb then [] else content);
               s = clean_loop cfg (file_lines src) clean_init;
               fs2 = fs1(output_pdb \<mapsto> concat (written s))
           in (fs2, if \<not> wrote_any s then Inl (RuntimeError empty_result_message)
                    else Inr (removed s))))"

section \<open>The world outside the program\<close>

text \<open>
  What the program does to its surroundings is recorded in a trace: lines printed (by
  \<open>print\<close> and \<open>typer.echo\<close>), HTTP requests sent, pauses, external commands run. The
  surroundings answer through an environment: the network's answer to a GET request and
  the external tool's behaviour may depend on the moment they are asked (the length of
  the trace so far), and are otherwise arbitrary.
\<close>

datatype event =
    Printed string
  | Requested string
  | Slept nat
  | Ran "string list"

record world =
  files :: "path \<rightharpoonup> string"
  trace :: "event list"

text \<open>\<open>requests.get\<close> either raises a \<open>RequestException\<close> (connection error, timeout) or
  returns a response with a status code, a reason phrase and a body.\<close>

datatype http_result =
    Response nat string string
  | RequestFailed string

text \<open>The environment also holds what Python's Unicode tables say of a target that is
  not plain ASCII: whether \<open>len(t) == 4 and t.isalnum()\<close> holds of the decoded text, and
  the text \<open>t.upper()\<close>.\<close>

record env =
  http_get :: "nat \<Rightarrow> string \<Rightarrow> http_result"
  which :: "string \<Rightarrow> path option"
  run_proc :: "nat \<Rightarrow> string list \<Rightarrow> (path \<rightharpoonup> string) \<Rightarrow> (int \<times> string) \<times> (path \<rightharpoonup> string)"
  four_alnum_unicode :: "string \<Rightarrow> bool"
  upper_unicode :: "string \<Rightarrow> string"

definition echo :: "string \<Rightarrow> world \<Rightarrow> world" where
  "echo msg w = w\<lparr>trace := trace w @ [Printed msg]\<rparr>"

definition is_request :: "event \<Rightarrow> bool" where
  "is_request ev \<longleftrightarrow> (case ev of Requested _ \<Rightarrow> True | _ \<Rightarrow> False)"

subsection \<open>Numbers in messages\<close>

definition digit_char :: "nat \<Rightarrow> char" where
  "digit_char d = ''0123456789'' ! d"

fun str_nat :: "nat \<Rightarrow> string" where
  "str_nat n = (if n < 10 then [digit_char n] else str_nat (n div 10) @ [digit_char (n mod 10)])"

declare str_nat.simps [simp del]

definition str_int :: "int \<Rightarrow> string" where
  "str_int i = (if i < 0 then CHR ''-'' # str_nat (nat (- i)) else str_nat (nat i))"

section \<open>The fetcher: \<open>download_pdb\<close>\<close>

text \<open>\<open>Response.raise_for_status\<close> of the requests library raises an \<open>HTTPError\<close> (a
  \<open>RequestException\<close>) for the statuses 400 to 599, and returns for every other status.\<close>

definition raise_for_status :: "nat \<Rightarrow> string \<Rightarrow> string \<Rightarrow> string option" where
  "raise_for_status status reason url =
     (if 400 \<le> status \<and> status < 500 then
        Some (str_nat status @ '' Client Error: '' @ reason @ '' for url: '' @ url)
      else if 500 \<le> status \<and> status < 600 then
        Some (str_nat status @ '' Server Error: '' @ reason @ '' for url: '' @ url)
      else None)"

text \<open>Lines 70 and 71 at the moment \<open>now\<close>: the text of the \<open>RequestException\<close> raised,
  or the body of the response that passed the status check.\<close>

definition get_checked :: "env \<Rightarrow> nat \<Rightarrow> string \<Rightarrow> string + string" where
  "get_checked E now url =
     (case http_get E now url of
        RequestFailed e \<Rightarrow> Inl e
      | Response status reason body \<Rightarrow>
          (case raise_for_status status reason url of
             Some e \<Rightarrow> Inl e
           | None \<Rightarrow> Inr body))"

text \<open>The loop of lines 68 to 78 over the attempts still to make. It returns \<open>Inr ()\<close>
  from inside the loop on success, and \<open>Inl last_err\<close> when the attempts are used up.\<close>

fun download_loop ::
  "env \<Rightarrow> string \<Rightarrow> path \<Rightarrow> int \<Rightarrow> int list \<Rightarrow> string option \<Rightarrow> world
     \<Rightarrow> world \<times> (string option + unit)"
where
  "download_loop E url out_path retries [] last_err w = (w, Inl last_err)"
| "download_loop E url out_path retries (attempt # rest) last_err w =
     (let w1 = w\<lparr>trace := trace w @ [Requested url]\<rparr> in
      case get_checked E (length (trace w)) url of
        Inr body \<Rightarrow> (w1\<lparr>files := (files w1)(out_path \<mapsto> body)\<rparr>, Inr ())
      | Inl e \<Rightarrow>
          download_loop E url out_path retries rest (Some e)
            (w1\<lparr>trace := trace w1 @
                 [Printed (''[DOWNLOAD] Attempt '' @ str_int attempt @ ''/'' @ str_int retries
                            @ '' failed: '' @ e),
                  Slept 2]\<rparr>))"

definition pdb_url :: "string \<Rightarrow> string" where
  "pdb_url pdb_id = ''https://files.rcsb.org/download/'' @ upper pdb_id @ ''.pdb''"

text \<open>\<open>download_pdb(pdb_id, out_path, retries)\<close>; the per-request timeout is part of the
  network's answer.\<close>

definition download_pdb :: "env \<Rightarrow> string \<Rightarrow> path \<Rightarrow> int \<Rightarrow> world \<Rightarrow> world \<times> (exn + unit)" where
  "download_pdb E pdb_id out_path retries w =
     (case download_loop E (pdb_url pdb_id) out_path retries [1..retries] None w of
        (w', Inr u) \<Rightarrow> (w', Inr u)
      | (w', Inl last_err) \<Rightarrow>
          (w', Inl (RuntimeError
                     (''Failed to download '' @ pdb_id @ '' after '' @ str_int retries
                        @ '' attempts: ''
                        @ (case last_err of None \<Rightarrow> ''None'' | Some e \<Rightarrow> e)))))"

section \<open>The external tool\<close>

record tool_result =
  cmd :: string
  rc :: int
  "output" :: string

text \<open>\<open>" ".join(cmd)\<close>\<close>

fun join_blank :: "string list \<Rightarrow> string" where
  "join_blank [] = []"
| "join_blank [x] = x"
| "join_blank (x # y # ys) = x @ '' '' @ join_blank (y # ys)"

text \<open>\<open>which("obabel") or which("babel")\<close>\<close>

definition obabel_exe :: "env \<Rightarrow> path option" where
  "obabel_exe E = (case which E ''obabel'' of Some p \<Rightarrow> Some p | None \<Rightarrow> which E ''babel'')"

definition obabel_available :: "env \<Rightarrow> bool" where
  "obabel_available E \<longleftrightarrow> which E ''obabel'' \<noteq> None \<or> which E ''babel'' \<noteq> None"

text \<open>\<open>subprocess.run\<close> with the output captured: the exit code is returned, never raised.\<close>

definition run_captured :: "env \<Rightarrow> string list \<Rightarrow> world \<Rightarrow> world \<times> tool_result" where
  "run_captured E command w =
     (case run_proc E (length (trace w)) command (files w) of
        ((code, out), fs') \<Rightarrow>
          (w\<lparr>files := fs', trace := trace w @ [Ran command]\<rparr>,
           \<lparr>cmd = join_blank command, rc = code, output = out\<rparr>))"

definition add_hydrogens_with_obabel ::
  "env \<Rightarrow> path \<Rightarrow> path \<Rightarrow> world \<Rightarrow> world \<times> (exn + tool_result)"
where
  "add_hydrogens_with_obabel E input_file output_file w =
     (case obabel_exe E of
        None \<Rightarrow> (w, Inl (RuntimeError ''OpenBabel CLI not found (obabel).''))
      | Some exe \<Rightarrow>
          (case run_captured E [exe, input_file, ''-O'', output_file, ''-h''] w of
             (w', res) \<Rightarrow> (w', Inr res)))"

definition convert_to_pdbqt_with_obabel ::
  "env \<Rightarrow> path \<Rightarrow> path \<Rightarrow> world \<Rightarrow> world \<times> (exn + tool_result)"
where
  "convert_to_pdbqt_with_obabel E input_file output_file w =
     (case obabel_exe E of
        None \<Rightarrow> (w, Inl (RuntimeError ''OpenBabel CLI not found (obabel).''))
      | Some exe \<Rightarrow>
          (case run_captured E [exe, input_file, ''-O'', output_file] w of
             (w', res) \<Rightarrow> (w', Inr res)))"

section \<open>The batch loop of \<open>main\<close>\<close>

subsection \<open>Reports\<close>

text \<open>A report is a Python dictionary with string keys, kept in insertion order; its
  values are strings, numbers and nested dictionaries.\<close>

datatype jval =
    JStr string
  | JInt int
  | JObj "(string \<times> jval) list"

type_synonym report = "(string \<times> jval) list"

text \<open>\<open>d[k] = v\<close>\<close>

fun dict_set :: "(string \<times> 'v) list \<Rightarrow> string \<Rightarrow> 'v \<Rightarrow> (string \<times> 'v) list" where
  "dict_set [] k v = [(k, v)]"
| "dict_set ((k', v') # d) k v = (if k' = k then (k, v) # d else (k', v') # dict_set d k v)"

definition summary_json :: "removal_summary \<Rightarrow> jval" where
  "summary_json r =
     JObj [(''waters'', JInt (int (waters r))),
           (''hetero_residues'', JInt (int (hetero_residues r))),
           (''skipped_chains'', JInt (int (skipped_chains r)))]"

definition tool_json :: "tool_result \<Rightarrow> jval" where
  "tool_json r = JObj [(''cmd'', JStr (cmd r)), (''rc'', JInt (rc r)), (''output'', JStr (output r))]"

text \<open>\<open>str(e)\<close> for the exceptions the loop can catch.\<close>

fun str_exn :: "exn \<Rightarrow> string" where
  "str_exn (RuntimeError m) = m"
| "str_exn (TyperExit m) = m"
| "str_exn (FileNotFoundError p) =
     ''[Errno 2] No such file or directory: '' @ [CHR 0x27] @ p @ [CHR 0x27]"

subsection \<open>Paths and identifiers\<close>

text \<open>\<open>os.path.join\<close>, \<open>os.path.basename\<close> and the root part of \<open>os.path.splitext\<close> for
  POSIX paths; \<open>os.path.exists\<close> is membership in the file system's domain.\<close>

definition path_join :: "path \<Rightarrow> string \<Rightarrow> path" where
  "path_join a b =
     (if startswith b ''/'' then b
      else if a = [] \<or> last a = CHR ''/'' then a @ b
      else a @ ''/'' @ b)"

definition basename :: "path \<Rightarrow> string" where
  "basename p = rev (takeWhile (\<lambda>c. c \<noteq> CHR ''/'') (rev p))"

definition splitext_root :: "path \<Rightarrow> string" where
  "splitext_root p =
     (let b = basename p;
          dir = take (length p - length b) p;
          upto_dot = rev (dropWhile (\<lambda>c. c \<noteq> CHR ''.'') (rev b));
          root = butlast upto_dot
      in if upto_dot \<noteq> [] \<and> (\<exists>c \<in> set root. c \<noteq> CHR ''.'') then dir @ root else p)"

text \<open>A byte string is ASCII when no byte has its top bit set; then its bytes are its
  characters.\<close>

definition is_ascii :: "string \<Rightarrow> bool" where
  "is_ascii t \<longleftrightarrow> (\<forall>c \<in> set t. \<not> digit7 c)"

text \<open>\<open>t.isalnum()\<close> on ASCII text.\<close>

definition isalnum :: "string \<Rightarrow> bool" where
  "isalnum t \<longleftrightarrow>
     t \<noteq> [] \<and>
     (\<forall>c \<in> set t. c \<in> set (''0123456789'' @ ''abcdefghijklmnopqrstuvwxyz''
                               @ ''ABCDEFGHIJKLMNOPQRSTUVWXYZ''))"

text \<open>The test of line 189, \<open>len(t) == 4 and t.isalnum()\<close>, and \<open>t.upper()\<close> of line 190.\<close>

definition four_alnum :: "env \<Rightarrow> string \<Rightarrow> bool" where
  "four_alnum E t \<longleftrightarrow>
     (if is_ascii t then length t = 4 \<and> isalnum t else four_alnum_unicode E t)"

definition upper_target :: "env \<Rightarrow> string \<Rightarrow> string" where
  "upper_target E t = (if is_ascii t then upper t else upper_unicode E t)"

subsection \<open>One target\<close>

record run_options =
  out_dir :: path
  filters :: filter_config
  auto_add_h :: bool
  auto_pdbqt :: bool
  obabel_ready :: bool

text \<open>Lines 185 to 195: the fetched path and the label, or the exception raised.\<close>

definition resolve :: "env \<Rightarrow> run_options \<Rightarrow> string \<Rightarrow> world \<Rightarrow> world \<times> (exn + path \<times> string)" where
  "resolve E opts t w =
     (if files w t \<noteq> None then (w, Inr (t, splitext_root (basename t)))
      else if four_alnum E t then
        (let pdb_label = upper_target E t;
             fetched = path_join (out_dir opts) (pdb_label @ ''.pdb'');
             w1 = echo (''[FETCH] Downloading '' @ pdb_label @ '' ...'') w
         in case download_pdb E pdb_label fetched 3 w1 of
              (w2, Inl e) \<Rightarrow> (w2, Inl e)
            | (w2, Inr u) \<Rightarrow> (w2, Inr (fetched, pdb_label)))
      else (w, Inl (TyperExit (''Invalid PDB identifier or file path: '' @ t))))"

definition hydrogen_warning :: string where
  "hydrogen_warning = ''[WARN] OpenBabel returned non-zero exit during hydrogen addition.''"

text \<open>Lines 204 to 216: the report and the value of \<open>processed\<close> afterwards.\<close>

definition add_h_step ::
  "env \<Rightarrow> run_options \<Rightarrow> string \<Rightarrow> path \<Rightarrow> report \<Rightarrow> world \<Rightarrow> world \<times> (exn + report \<times> path)"
where
  "add_h_step E opts pdb_label processed report w =
     (if auto_add_h opts then
        (if obabel_ready opts then
           (let added_h = path_join (out_dir opts) (pdb_label @ ''_added_h.pdb'');
                w1 = echo (''[OBABEL] Adding hydrogens to '' @ processed @ '' -> '' @ added_h) w
            in case add_hydrogens_with_obabel E processed added_h w1 of
                 (w2, Inl e) \<Rightarrow> (w2, Inl e)
               | (w2, Inr obres) \<Rightarrow>
                   (let report1 = dict_set report ''add_hydrogens'' (tool_json obres)
                    in if rc obres = 0 then (w2, Inr (report1, added_h))
                       else (echo hydrogen_warning w2, Inr (report1, processed))))
         else (w, Inr (dict_set report ''add_hydrogens_skipped'' (JStr ''OpenBabel not available''),
                       processed)))
      else (w, Inr (report, processed)))"

text \<open>Lines 218 to 225.\<close>

definition pdbqt_step ::
  "env \<Rightarrow> run_options \<Rightarrow> string \<Rightarrow> path \<Rightarrow> report \<Rightarrow> world \<Rightarrow> world \<times> (exn + report)"
where
  "pdbqt_step E opts pdb_label processed report w =
     (if auto_pdbqt opts then
        (if obabel_ready opts then
           (let pdbqt = path_join (out_dir opts) (pdb_label @ ''.pdbqt'');
                w1 = echo (''[OBABEL] Converting '' @ processed @ '' -> '' @ pdbqt) w
            in case convert_to_pdbqt_with_obabel E processed pdbqt w1 of
                 (w2, Inl e) \<Rightarrow> (w2, Inl e)
               | (w2, Inr obres) \<Rightarrow> (w2, Inr (dict_set report ''pdbqt'' (tool_json obres))))
         else (w, Inr (dict_set report ''pdbqt_skipped'' (JStr ''OpenBabel not available''))))
      else (w, Inr report))"

text \<open>The body of the \<open>try\<close>, lines 185 to 228: the report to append, or the exception.\<close>

definition main_try :: "env \<Rightarrow> run_options \<Rightarrow> string \<Rightarrow> world \<Rightarrow> world \<times> (exn + report)" where
  "main_try E opts t w =
     (case resolve E opts t w of
        (w1, Inl e) \<Rightarrow> (w1, Inl e)
      | (w1, Inr (fetched, pdb_label)) \<Rightarrow>
          (let cleaned = path_join (out_dir opts) (pdb_label @ ''_clean.pdb'');
               report = [(''input'', JStr t), (''fetched'', JStr fetched), (''cleaned'', JStr cleaned)]
           in case clean_pdb (files w1) fetched cleaned (filters opts) of
                (fs2, Inl e) \<Rightarrow> (w1\<lparr>files := fs2\<rparr>, Inl e)
              | (fs2, Inr removed_counts) \<Rightarrow>
                  (let report1 = dict_set report ''removed'' (summary_json removed_counts)
                   in case add_h_step E opts pdb_label cleaned report1 (w1\<lparr>files := fs2\<rparr>) of
                        (w3, Inl e) \<Rightarrow> (w3, Inl e)
                      | (w3, Inr (report2, processed)) \<Rightarrow>
                          (case pdbqt_step E opts pdb_label processed report2 w3 of
                             (w4, Inl e) \<Rightarrow> (w4, Inl e)
                           | (w4, Inr report3) \<Rightarrow>
                               (echo (''[DONE] '' @ pdb_label) w4, Inr report3)))))"

text \<open>One iteration of the loop of line 183, with its \<open>except Exception\<close>: every exception
  of the model is an \<open>Exception\<close> (\<open>typer.Exit\<close> is a \<open>RuntimeError\<close>).\<close>

definition main_target :: "env \<Rightarrow> run_options \<Rightarrow> string \<Rightarrow> world \<Rightarrow> world \<times> report" where
  "main_target E opts t w =
     (case main_try E opts t w of
        (w', Inr report) \<Rightarrow> (w', report)
      | (w', Inl e) \<Rightarrow>
          (echo (''[ERROR] processing '' @ t @ '': '' @ str_exn e) w',
           [(''input'', JStr t), (''error'', JStr (str_exn e))]))"

text \<open>The loop of lines 183 to 231 over the targets, appending to \<open>reports\<close>.\<close>

fun main_loop ::
  "env \<Rightarrow> run_options \<Rightarrow> string list \<Rightarrow> world \<times> report list \<Rightarrow> world \<times> report list"
where
  "main_loop E opts [] (w, reports) = (w, reports)"
| "main_loop E opts (t # ts) (w, reports) =
     (case main_target E opts t w of
        (w', entry) \<Rightarrow> main_loop E opts ts (w', reports @ [entry]))"

section \<open>Notions used in the statements and proofs\<close>

text \<open>The four outcomes of one iteration on a record line, as predicates on the line.\<close>

definition is_record :: "string \<Rightarrow> bool" where
  "is_record line \<longleftrightarrow> startswith_any line record_prefixes"

definition drops_chain :: "string list option \<Rightarrow> string \<Rightarrow> bool" where
  "drops_chain kc line \<longleftrightarrow> is_record line \<and> chain_rejected kc (chain_id_of line)"

definition drops_water :: "bool \<Rightarrow> string list option \<Rightarrow> string \<Rightarrow> bool" where
  "drops_water rw kc line \<longleftrightarrow>
     is_record line \<and> \<not> chain_rejected kc (chain_id_of line)
     \<and> rw \<and> resname_of line \<in> set water_names"

definition drops_hetero ::
  "bool \<Rightarrow> bool \<Rightarrow> string list option \<Rightarrow> string list \<Rightarrow> string \<Rightarrow> bool"
where
  "drops_hetero rw rh kc kl line \<longleftrightarrow>
     is_record line \<and> \<not> chain_rejected kc (chain_id_of line)
     \<and> \<not> (rw \<and> resname_of line \<in> set water_names)
     \<and> rh \<and> rec_of line = ''HETATM'' \<and> resname_of line \<notin> set kl"

definition keeps :: "bool \<Rightarrow> bool \<Rightarrow> string list option \<Rightarrow> string list \<Rightarrow> string \<Rightarrow> bool" where
  "keeps rw rh kc kl line \<longleftrightarrow>
     is_record line \<and> \<not> chain_rejected kc (chain_id_of line)
     \<and> \<not> (rw \<and> resname_of line \<in> set water_names)
     \<and> \<not> (rh \<and> rec_of line = ''HETATM'' \<and> resname_of line \<notin> set kl)"

text \<open>The Removal Summary in the words of the specification: the number of lines the
  water rule removes, the number the heteroatom rule removes, and the number skipped for
  their chain.\<close>

definition removal_counts :: "filter_config \<Rightarrow> string list \<Rightarrow> removal_summary" where
  "removal_counts cfg ls =
     \<lparr>waters =
        length (filter (drops_water (remove_waters cfg) (norm_keep_chains (keep_chains cfg))) ls),
      hetero_residues =
        length (filter (drops_hetero (remove_waters cfg) (remove_hetero cfg)
                          (norm_keep_chains (keep_chains cfg))
                          (norm_keep_ligands (keep_ligands cfg))) ls),
      skipped_chains =
        length (filter (drops_chain (norm_keep_chains (keep_chains cfg))) ls)\<rparr>"

text \<open>A line that ends with its only newline, and a last line without one.\<close>

definition terminated :: "string \<Rightarrow> bool" where
  "terminated l \<longleftrightarrow> (\<exists>b. l = b @ [newline] \<and> newline \<notin> set b)"

definition unterminated :: "string \<Rightarrow> bool" where
  "unterminated l \<longleftrightarrow> l \<noteq> [] \<and> newline \<notin> set l"

fun wf_lines :: "string list \<Rightarrow> bool" where
  "wf_lines [] = True"
| "wf_lines [l] = (terminated l \<or> unterminated l)"
| "wf_lines (l # l' # ls) = (terminated l \<and> wf_lines (l' # ls))"

text \<open>The chains present in a file: the non-empty chain identifiers of its record lines.
  An allow-list excludes every chain present when none of them, uppercased, is among
  its normalised entries.\<close>

definition chains_present :: "string \<Rightarrow> string list" where
  "chains_present src =
     map chain_id_of
       (filter (\<lambda>l. startswith_any l record_prefixes \<and> chain_id_of l \<noteq> []) (file_lines src))"

definition excludes_every_chain :: "filter_config \<Rightarrow> string \<Rightarrow> bool" where
  "excludes_every_chain cfg src \<longleftrightarrow>
     (case keep_chains cfg of
        None \<Rightarrow> False
      | Some cs \<Rightarrow>
          list_all (\<lambda>c. upper c \<notin> set (map (\<lambda>k. upper (strip k)) cs)) (chains_present src))"

section \<open>Sample inputs\<close>

definition atom_line_A :: string where
  "atom_line_A = ''ATOM      1  N   MET A   1'' @ [newline]"

definition hem_line_A :: string where
  "hem_line_A = ''HETATM    2 FE   HEM A 200'' @ [newline]"

definition water_line_B :: string where
  "water_line_B = ''HETATM    3  O   HOH B 300'' @ [newline]"

definition atom_line_A_crlf :: string where
  "atom_line_A_crlf = ''ATOM      1  N   MET A   1'' @ [carriage_return, newline]"

definition end_line :: string where
  "end_line = ''END'' @ [newline]"

definition end_line_with_water_name :: string where
  "end_line_with_water_name = ''END              HOH'' @ [newline]"

definition default_filters :: filter_config where
  "default_filters =
     \<lparr>remove_waters = True, remove_hetero = True, keep_chains = None, keep_ligands = None\<rparr>"

definition only_chain :: "string \<Rightarrow> filter_config" where
  "only_chain c = default_filters\<lparr>keep_chains := Some [c]\<rparr>"

definition empty_allow_list :: filter_config where
  "empty_allow_list = default_filters\<lparr>keep_chains := Some []\<rparr>"

text \<open>A network that times out twice and then answers 404, a tool that is installed,
  fails to add hydrogens and converts, and a working directory with one structure file.
  The sample targets are ASCII, so the sample leaves the Unicode tables trivial.\<close>

definition failing_net :: "nat \<Rightarrow> string \<Rightarrow> http_result" where
  "failing_net now url =
     (if now < 4 then RequestFailed ''timed out'' else Response 404 ''Not Found'' [])"

definition sample_env :: env where
  "sample_env =
     \<lparr>http_get = failing_net,
      which = (\<lambda>p. if p = ''obabel'' then Some ''/usr/bin/obabel'' else None),
      run_proc = (\<lambda>now command fs.
                    if ''-h'' \<in> set command then ((1, ''failed''), fs)
                    else ((0, ''1 molecule converted''), fs)),
      four_alnum_unicode = (\<lambda>t. False),
      upper_unicode = (\<lambda>t. t)\<rparr>"

text \<open>A network that answers every request with status 304 and a body.\<close>

definition not_modified_env :: env where
  "not_modified_env =
     sample_env\<lparr>http_get := (\<lambda>now url. Response 304 ''Not Modified'' ''cached'')\<rparr>"

definition sample_world :: world where
  "sample_world = \<lparr>files = [''1abc.pdb'' \<mapsto> atom_line_A @ water_line_B @ end_line], trace = []\<rparr>"

definition sample_options :: run_options where
  "sample_options =
     \<lparr>out_dir = ''out'', filters = default_filters, auto_add_h = True, auto_pdbqt = True,
      obabel_ready = True\<rparr>"

text \<open>The two shapes of an entry of the run-level report list: an error entry has the
  keys \<open>input\<close> and \<open>error\<close>; a successful result starts with the input, the fetched and
  cleaned paths and the removal summary, and has no \<open>error\<close> key.\<close>

definition is_error_entry :: "report \<Rightarrow> bool" where
  "is_error_entry r \<longleftrightarrow> map fst r = [''input'', ''error'']"

definition is_success_entry :: "report \<Rightarrow> bool" where
  "is_success_entry r \<longleftrightarrow>
     take 4 (map fst r) = [''input'', ''fetched'', ''cleaned'', ''removed'']
     \<and> ''error'' \<notin> set (map fst r)"

section \<open>Lines of a file\<close>

lemma wf_lines_Cons: "terminated l \<Longrightarrow> wf_lines ls \<Longrightarrow> wf_lines (l # ls)"
  by (cases ls) simp_all

lemma wf_lines_tail: "wf_lines (l # ls) \<Longrightarrow> wf_lines ls"
  by (cases ls) simp_all

lemma wf_lines_head: "wf_lines (l # ls) \<Longrightarrow> ls \<noteq> [] \<Longrightarrow> terminated l"
  by (cases ls) simp_all

lemma terminated_Cons: "c \<noteq> newline \<Longrightarrow> terminated l \<Longrightarrow> terminated (c # l)"
  unfolding terminated_def
proof -
  assume c: "c \<noteq> newline" and "\<exists>b. l = b @ [newline] \<and> newline \<notin> set b"
  then obtain b where "l = b @ [newline]" "newline \<notin> set b" by blast
  with c have "c # l = (c # b) @ [newline] \<and> newline \<notin> set (c # b)" by simp
  then show "\<exists>b. c # l = b @ [newline] \<and> newline \<notin> set b" by blast
qed

lemma wf_lines_push: "c \<noteq> newline \<Longrightarrow> wf_lines (l # ls) \<Longrightarrow> wf_lines ((c # l) # ls)"
  by (cases ls) (auto simp: terminated_Cons unterminated_def)

lemma wf_split_lines: "wf_lines (split_lines s)"
proof (induction s)
  case Nil
  then show ?case by simp
next
  case (Cons c cs)
  show ?case
  proof (cases "c = newline")
    case True
    have "terminated [newline]" unfolding terminated_def by simp
    with True Cons show ?thesis by (simp add: wf_lines_Cons)
  next
    case False
    with Cons show ?thesis
      by (cases "split_lines cs") (simp_all add: unterminated_def wf_lines_push)
  qed
qed

lemma wf_lines_filter: "wf_lines ls \<Longrightarrow> wf_lines (filter P ls)"
proof (induction ls)
  case Nil
  then show ?case by simp
next
  case (Cons l ls)
  then have IH: "wf_lines (filter P ls)" by (simp add: wf_lines_tail)
  show ?case
  proof (cases "P l \<and> filter P ls \<noteq> []")
    case True
    then have "ls \<noteq> []" by auto
    with Cons.prems have "terminated l" by (rule wf_lines_head)
    with True IH show ?thesis by (simp add: wf_lines_Cons)
  next
    case False
    with IH Cons.prems show ?thesis
      by (cases "P l"; cases ls) auto
  qed
qed

lemma split_lines_unterminated: "unterminated l \<Longrightarrow> split_lines l = [l]"
proof (induction l)
  case Nil
  then show ?case by (simp add: unterminated_def)
next
  case (Cons c cs)
  then show ?case by (cases cs) (auto simp: unterminated_def)
qed

lemma split_lines_append: "newline \<notin> set b \<Longrightarrow> split_lines (b @ newline # rest) = (b @ [newline]) # split_lines rest"
  by (induction b) auto

lemma split_lines_terminated: "terminated l \<Longrightarrow> split_lines (l @ rest) = l # split_lines rest"
  unfolding terminated_def using split_lines_append by auto

lemma split_lines_concat: "wf_lines ls \<Longrightarrow> split_lines (concat ls) = ls"
proof (induction ls rule: wf_lines.induct)
  case 1
  then show ?case by simp
next
  case (2 l)
  then show ?case
    using split_lines_terminated [of l "[]"] split_lines_unterminated [of l] by auto
next
  case (3 l l' ls)
  then show ?case by (simp add: split_lines_terminated)
qed

lemma concat_split_lines: "concat (split_lines s) = s"
  by (induction s) (auto split: list.splits)


lemma universal_newlines_no_cr: "carriage_return \<notin> set (universal_newlines s)"
  by (induction s rule: universal_newlines.induct) (auto simp: newline_def carriage_return_def)

lemma universal_newlines_id: "carriage_return \<notin> set s \<Longrightarrow> universal_newlines s = s"
  by (induction s rule: universal_newlines.induct) auto

lemma file_lines_no_cr: "carriage_return \<notin> set s \<Longrightarrow> file_lines s = split_lines s"
  by (simp add: file_lines_def universal_newlines_id)

lemma wf_file_lines: "wf_lines (file_lines s)"
  by (simp add: file_lines_def wf_split_lines)

lemma file_lines_chars: "l \<in> set (file_lines s) \<Longrightarrow> carriage_return \<notin> set l"
proof -
  assume "l \<in> set (file_lines s)"
  then have "set l \<subseteq> set (concat (file_lines s))" by auto
  then have "set l \<subseteq> set (universal_newlines s)"
    by (simp add: file_lines_def concat_split_lines)
  then show ?thesis using universal_newlines_no_cr by blast
qed

lemma file_lines_filter: "file_lines (concat (filter P (file_lines s))) = filter P (file_lines s)"
proof -
  have "carriage_return \<notin> set (concat (filter P (file_lines s)))"
    using file_lines_chars by auto
  then have "file_lines (concat (filter P (file_lines s))) = split_lines (concat (filter P (file_lines s)))"
    by (rule file_lines_no_cr)
  also have "\<dots> = filter P (file_lines s)"
    by (rule split_lines_concat) (rule wf_lines_filter, rule wf_file_lines)
  finally show ?thesis .
qed

lemma file_lines_Nil [simp]: "file_lines [] = []"
  by (simp add: file_lines_def)

lemma fold_clean_line:
  "fold (clean_line rw rh kc kl) ls s =
     \<lparr>removed = \<lparr>waters = waters (removed s) + length (filter (drops_water rw kc) ls),
                 hetero_residues = hetero_residues (removed s) + length (filter (drops_hetero rw rh kc kl) ls),
                 skipped_chains = skipped_chains (removed s) + length (filter (drops_chain kc) ls)\<rparr>,
      written = written s @ filter (keeps rw rh kc kl) ls,
      wrote_any = (wrote_any s \<or> filter (keeps rw rh kc kl) ls \<noteq> [])\<rparr>"
proof (induction ls arbitrary: s)
  case Nil
  then show ?case by simp
next
  case (Cons l ls)
  consider (other) "\<not> is_record l"
    | (chain) "drops_chain kc l" | (water) "drops_water rw kc l"
    | (hetero) "drops_hetero rw rh kc kl l" | (keep) "keeps rw rh kc kl l"
    unfolding drops_chain_def drops_water_def drops_hetero_def keeps_def by blast
  then show ?case
  proof cases
    case other
    then have "\<not> drops_chain kc l" "\<not> drops_water rw kc l" "\<not> drops_hetero rw rh kc kl l"
      "\<not> keeps rw rh kc kl l" "clean_line rw rh kc kl l s = s"
      unfolding drops_chain_def drops_water_def drops_hetero_def keeps_def clean_line_def is_record_def by simp_all
    then show ?thesis by (simp add: Cons.IH)
  next
    case chain
    then have "\<not> drops_water rw kc l" "\<not> drops_hetero rw rh kc kl l"
      "\<not> keeps rw rh kc kl l"
      "clean_line rw rh kc kl l s = s\<lparr>removed := (removed s)\<lparr>skipped_chains := skipped_chains (removed s) + 1\<rparr>\<rparr>"
      unfolding drops_chain_def drops_water_def drops_hetero_def keeps_def clean_line_def is_record_def by simp_all
    with chain show ?thesis by (simp add: Cons.IH)
  next
    case water
    then have "\<not> drops_chain kc l" "\<not> drops_hetero rw rh kc kl l"
      "\<not> keeps rw rh kc kl l"
      "clean_line rw rh kc kl l s = s\<lparr>removed := (removed s)\<lparr>waters := waters (removed s) + 1\<rparr>\<rparr>"
      unfolding drops_chain_def drops_water_def drops_hetero_def keeps_def clean_line_def is_record_def by simp_all
    with water show ?thesis by (simp add: Cons.IH)
  next
    case hetero
    then have "\<not> drops_chain kc l" "\<not> drops_water rw kc l"
      "\<not> keeps rw rh kc kl l"
      "clean_line rw rh kc kl l s = s\<lparr>removed := (removed s)\<lparr>hetero_residues := hetero_residues (removed s) + 1\<rparr>\<rparr>"
      unfolding drops_chain_def drops_water_def drops_hetero_def keeps_def clean_line_def is_record_def by auto
    with hetero show ?thesis by (simp add: Cons.IH)
  next
    case keep
    then have "\<not> drops_chain kc l" "\<not> drops_water rw kc l" "\<not> drops_hetero rw rh kc kl l"
      "clean_line rw rh kc kl l s = s\<lparr>written := written s @ [l], wrote_any := True\<rparr>"
      unfolding drops_chain_def drops_water_def drops_hetero_def keeps_def clean_line_def is_record_def by auto
    with keep show ?thesis by (simp add: Cons.IH)
  qed
qed

section \<open>The filter loop in closed form\<close>

lemma clean_loop_closed:
  "clean_loop cfg ls s =
     \<lparr>removed =
        \<lparr>waters = waters (removed s)
            + length (filter (drops_water (remove_waters cfg) (norm_keep_chains (keep_chains cfg))) ls),
         hetero_residues = hetero_residues (removed s)
            + length (filter (drops_hetero (remove_waters cfg) (remove_hetero cfg)
                       (norm_keep_chains (keep_chains cfg)) (norm_keep_ligands (keep_ligands cfg))) ls),
         skipped_chains = skipped_chains (removed s)
            + length (filter (drops_chain (norm_keep_chains (keep_chains cfg))) ls)\<rparr>,
      written = written s @ filter (keeps (remove_waters cfg) (remove_hetero cfg)
                  (norm_keep_chains (keep_chains cfg)) (norm_keep_ligands (keep_ligands cfg))) ls,
      wrote_any = (wrote_any s \<or> filter (keeps (remove_waters cfg) (remove_hetero cfg)
                  (norm_keep_chains (keep_chains cfg)) (norm_keep_ligands (keep_ligands cfg))) ls \<noteq> [])\<rparr>"
  unfolding clean_loop_def by (rule fold_clean_line)

lemma wrote_any_iff_written:
  "wrote_any (clean_loop cfg ls clean_init) \<longleftrightarrow> written (clean_loop cfg ls clean_init) \<noteq> []"
  by (simp add: clean_loop_closed clean_init_def)

lemma written_subset:
  "l \<in> set (written (clean_loop cfg ls clean_init)) \<Longrightarrow> l \<in> set ls \<and> is_record l"
  by (simp add: clean_loop_closed clean_init_def keeps_def)

lemma is_record_nonempty: "is_record l \<Longrightarrow> l \<noteq> []"
  by (auto simp: is_record_def startswith_any_def startswith_def record_prefixes_def)

lemma concat_written_empty:
  "concat (written (clean_loop cfg ls clean_init)) = [] \<longleftrightarrow> written (clean_loop cfg ls clean_init) = []"
proof
  assume c: "concat (written (clean_loop cfg ls clean_init)) = []"
  show "written (clean_loop cfg ls clean_init) = []"
  proof (rule ccontr)
    assume "written (clean_loop cfg ls clean_init) \<noteq> []"
    then obtain l where l: "l \<in> set (written (clean_loop cfg ls clean_init))"
      by (cases "written (clean_loop cfg ls clean_init)") auto
    then have "l \<noteq> []" using written_subset is_record_nonempty by blast
    with l c show False by auto
  qed
qed simp

lemma file_lines_written:
  "file_lines (concat (written (clean_loop cfg (file_lines src) clean_init)))
     = written (clean_loop cfg (file_lines src) clean_init)"
  by (simp add: clean_loop_closed clean_init_def file_lines_filter)

lemma split_lines_written:
  "split_lines (concat (written (clean_loop cfg (file_lines src) clean_init)))
     = written (clean_loop cfg (file_lines src) clean_init)"
  by (simp add: clean_loop_closed clean_init_def split_lines_concat wf_lines_filter wf_file_lines)

lemma filter_filter_absorb: "(\<And>x. P x \<Longrightarrow> Q x) \<Longrightarrow> filter P (filter Q xs) = filter P xs"
  by (induction xs) auto

lemma clean_loop_skip_other:
  "clean_loop cfg (filter is_record ls) s = clean_loop cfg ls s"
proof -
  have a: "\<And>kc. filter (drops_chain kc) (filter is_record ls) = filter (drops_chain kc) ls"
    by (rule filter_filter_absorb) (simp add: drops_chain_def)
  have b: "\<And>rw kc. filter (drops_water rw kc) (filter is_record ls) = filter (drops_water rw kc) ls"
    by (rule filter_filter_absorb) (simp add: drops_water_def)
  have c: "\<And>rw rh kc kl. filter (drops_hetero rw rh kc kl) (filter is_record ls)
             = filter (drops_hetero rw rh kc kl) ls"
    by (rule filter_filter_absorb) (simp add: drops_hetero_def)
  have d: "\<And>rw rh kc kl. filter (keeps rw rh kc kl) (filter is_record ls)
             = filter (keeps rw rh kc kl) ls"
    by (rule filter_filter_absorb) (simp add: keeps_def)
  show ?thesis
    unfolding clean_loop_closed [of cfg "filter is_record ls"] clean_loop_closed [of cfg ls]
    by (simp only: a b c d)
qed

lemma strip_Cons:
  "\<not> isspace_char c \<Longrightarrow> strip (c # cs) = c # rev (dropWhile isspace_char (rev cs))"
  by (simp add: strip_def dropWhile_append3)

lemma marker_is_record:
  "startswith line ''TER'' \<or> startswith line ''END'' \<Longrightarrow> is_record line"
  by (auto simp: is_record_def startswith_any_def record_prefixes_def)

lemma marker_not_hetatm:
  assumes "startswith line ''TER'' \<or> startswith line ''END''"
  shows "rec_of line \<noteq> ''HETATM''"
proof -
  from assms obtain c rest where l: "line = c # rest" and c: "c = CHR ''T'' \<or> c = CHR ''E''"
    by (cases line) (auto simp: startswith_def)
  from c have "\<not> isspace_char c" by (auto simp: isspace_char_def)
  then have "rec_of line = c # rev (dropWhile isspace_char (rev (take 5 rest)))"
    by (simp add: rec_of_def slice_def l strip_Cons)
  with c show ?thesis by auto
qed

lemma short_marker_kept:
  assumes "startswith line ''TER'' \<or> startswith line ''END''" and "length line < 20"
  shows "keeps rw rh kc kl line"
proof -
  have "chain_id_of line = []" "resname_of line = []"
    using assms(2) by (simp_all add: chain_id_of_def resname_of_def)
  moreover have "\<not> chain_rejected kc []"
    by (simp add: chain_rejected_def split: option.splits)
  moreover have "[] \<notin> set water_names" by (simp add: water_names_def)
  ultimately show ?thesis
    using marker_is_record [OF assms(1)] marker_not_hetatm [OF assms(1)]
    by (simp add: keeps_def)
qed

lemma clean_line_keeps:
  "keeps rw rh kc kl line \<Longrightarrow>
     clean_line rw rh kc kl line s = s\<lparr>written := written s @ [line], wrote_any := True\<rparr>"
  unfolding keeps_def clean_line_def is_record_def by auto

lemma clean_pdb_unfold:
  assumes "fs input_pdb = Some content"
  shows "clean_pdb fs input_pdb output_pdb cfg =
     (let s = clean_loop cfg (file_lines (if input_pdb = output_pdb then [] else content)) clean_init
      in (fs(output_pdb \<mapsto> concat (written s)),
          if written s = [] then Inl (RuntimeError empty_result_message) else Inr (removed s)))"
  using assms wrote_any_iff_written
  by (simp add: clean_pdb_def Let_def)

section \<open>Properties of \<open>clean_pdb\<close>\<close>

lemmas sample_defs =
  atom_line_A_def hem_line_A_def water_line_B_def end_line_def end_line_with_water_name_def
  default_filters_def only_chain_def

lemmas text_defs =
  startswith_any_def startswith_def record_prefixes_def water_names_def slice_def strip_def
  upper_def upper_char_def isspace_char_def newline_def carriage_return_def file_lines_def

lemmas clean_defs =
  clean_pdb_def clean_loop_def clean_line_def clean_init_def norm_keep_chains_def
  norm_keep_ligands_def chain_id_of_def resname_of_def rec_of_def chain_rejected_def
  empty_result_message_def

text \<open>
  C1, as stated, fails when the configured allow-list is empty: line 96 turns an empty
  list into no list, so a line on chain B, which is not in the empty list, is not
  skipped for its chain; here the water rule counts it.
\<close>

theorem chain_filter_first_counterexample:
  "keep_chains empty_allow_list = Some []
   \<and> startswith_any water_line_B record_prefixes
   \<and> chain_id_of water_line_B = ''B''
   \<and> clean_loop empty_allow_list [water_line_B] clean_init =
       \<lparr>removed = \<lparr>waters = 1, hetero_residues = 0, skipped_chains = 0\<rparr>,
        written = [], wrote_any = False\<rparr>"
  by (simp add: empty_allow_list_def sample_defs text_defs clean_defs Let_def)

text \<open>
  C1, amended. In the loop of \<open>clean_pdb\<close>, when a non-empty chain allow-list is
  configured, a record line whose chain identifier is non-empty and not in the
  allow-list has one effect only, wherever it stands in the file and whatever its
  residue name and record type are: the skipped-chain counter goes up by one. The water
  and heteroatom counters and the output are those of the file without that line.
\<close>

theorem chain_filter_first:
  assumes "startswith_any line record_prefixes"
    and "keep_chains cfg = Some cs" and "cs \<noteq> []"
    and "chain_id_of line \<noteq> []"
    and "upper (chain_id_of line) \<notin> set (map (\<lambda>c. upper (strip c)) cs)"
  shows "clean_loop cfg (before @ line # after) s =
           (let r = clean_loop cfg (before @ after) s
            in r\<lparr>removed := (removed r)\<lparr>skipped_chains := skipped_chains (removed r) + 1\<rparr>\<rparr>)"
proof -
  from assms(2,3) have kc: "norm_keep_chains (keep_chains cfg) = Some (map (\<lambda>c. upper (strip c)) cs)"
    by (simp add: norm_keep_chains_def)
  with assms have rej: "chain_rejected (norm_keep_chains (keep_chains cfg)) (chain_id_of line)"
    by (simp add: chain_rejected_def)
  with assms(1) have "drops_chain (norm_keep_chains (keep_chains cfg)) line"
    by (simp add: drops_chain_def is_record_def)
  moreover from rej have "\<not> drops_water rw (norm_keep_chains (keep_chains cfg)) line"
    "\<not> drops_hetero rw rh (norm_keep_chains (keep_chains cfg)) kl line"
    "\<not> keeps rw rh (norm_keep_chains (keep_chains cfg)) kl line" for rw rh kl
    by (simp_all add: drops_water_def drops_hetero_def keeps_def)
  ultimately show ?thesis
    by (simp add: clean_loop_closed Let_def)
qed

theorem chain_filter_first_witness:
  "startswith_any water_line_B record_prefixes
   \<and> keep_chains (only_chain ''a'') = Some [''a'']
   \<and> chain_id_of water_line_B = ''B''
   \<and> resname_of water_line_B \<in> set water_names
   \<and> rec_of water_line_B = ''HETATM''
   \<and> clean_loop (only_chain ''a'') [atom_line_A, water_line_B, end_line] clean_init =
       \<lparr>removed = \<lparr>waters = 0, hetero_residues = 0, skipped_chains = 1\<rparr>,
        written = [atom_line_A, end_line], wrote_any = True\<rparr>"
  using chain_filter_first [of water_line_B "only_chain ''a''" "[''a'']" "[atom_line_A]" "[end_line]" clean_init]
  by (simp add: sample_defs text_defs clean_defs Let_def)

text \<open>
  C2. On an existing source file, \<open>clean_pdb\<close> raises the empty-result error exactly
  when the destination file it leaves behind has no line; whenever the destination has
  a line it returns the Removal Summary: the numbers of source lines removed by the
  water rule, removed by the heteroatom rule, and skipped for their chain.
\<close>

theorem clean_pdb_error_iff_nothing_written:
  assumes "fs input_pdb = Some content"
  shows "\<exists>out. fst (clean_pdb fs input_pdb output_pdb cfg) output_pdb = Some out
           \<and> (snd (clean_pdb fs input_pdb output_pdb cfg) = Inl (RuntimeError empty_result_message)
                \<longleftrightarrow> split_lines out = [])
           \<and> (split_lines out \<noteq> []
                \<longrightarrow> snd (clean_pdb fs input_pdb output_pdb cfg)
                      = Inr (removal_counts cfg (file_lines content)))"
proof -
  define src where "src = (if input_pdb = output_pdb then [] else content)"
  define s where "s = clean_loop cfg (file_lines src) clean_init"
  have lines: "split_lines (concat (written s)) = written s"
    unfolding s_def by (rule split_lines_written)
  have counts: "removed s = removal_counts cfg (file_lines src)"
    by (simp add: s_def clean_loop_closed clean_init_def removal_counts_def)
  have "written s = []" if "input_pdb = output_pdb"
    using that by (simp add: s_def src_def file_lines_Nil clean_loop_closed clean_init_def)
  then have src: "written s \<noteq> [] \<Longrightarrow> src = content"
    by (auto simp: src_def)
  have "clean_pdb fs input_pdb output_pdb cfg =
          (fs(output_pdb \<mapsto> concat (written s)),
           if written s = [] then Inl (RuntimeError empty_result_message) else Inr (removed s))"
    using clean_pdb_unfold [of fs input_pdb content output_pdb cfg] assms
    by (simp add: s_def src_def Let_def)
  with lines counts src show ?thesis by auto
qed

theorem clean_pdb_error_iff_nothing_written_witness:
  "snd (clean_pdb [''a.pdb'' \<mapsto> water_line_B] ''a.pdb'' ''b.pdb'' default_filters)
     = Inl (RuntimeError empty_result_message)
   \<and> fst (clean_pdb [''a.pdb'' \<mapsto> water_line_B] ''a.pdb'' ''b.pdb'' default_filters) ''b.pdb''
     = Some []
   \<and> snd (clean_pdb [''a.pdb'' \<mapsto> atom_line_A @ hem_line_A @ water_line_B] ''a.pdb'' ''b.pdb''
            default_filters)
     = Inr \<lparr>waters = 1, hetero_residues = 1, skipped_chains = 0\<rparr>
   \<and> removal_counts default_filters (file_lines (atom_line_A @ hem_line_A @ water_line_B))
     = \<lparr>waters = 1, hetero_residues = 1, skipped_chains = 0\<rparr>
   \<and> fst (clean_pdb [''a.pdb'' \<mapsto> atom_line_A @ hem_line_A @ water_line_B] ''a.pdb'' ''b.pdb''
            default_filters) ''b.pdb''
     = Some atom_line_A"
  using clean_pdb_error_iff_nothing_written
          [of "[''a.pdb'' \<mapsto> water_line_B]" "''a.pdb''" water_line_B "''b.pdb''" default_filters]
        clean_pdb_error_iff_nothing_written
          [of "[''a.pdb'' \<mapsto> atom_line_A @ hem_line_A @ water_line_B]" "''a.pdb''"
              "atom_line_A @ hem_line_A @ water_line_B" "''b.pdb''" default_filters]
  by (simp add: sample_defs text_defs clean_defs removal_counts_def drops_water_def
        drops_hetero_def drops_chain_def is_record_def Let_def)

text \<open>
  C3, as stated, fails: a file whose only chain is excluded by the allow-list, followed
  by a short end marker. The marker has no chain identifier, passes the chain filter and
  is written, so \<open>clean_pdb\<close> returns a summary.
\<close>

theorem excluded_chains_counterexample:
  "excludes_every_chain (only_chain ''B'') (atom_line_A @ end_line)
   \<and> clean_pdb [''a.pdb'' \<mapsto> atom_line_A @ end_line] ''a.pdb'' ''b.pdb'' (only_chain ''B'')
     = ([''a.pdb'' \<mapsto> atom_line_A @ end_line, ''b.pdb'' \<mapsto> end_line],
        Inr \<lparr>waters = 0, hetero_residues = 0, skipped_chains = 1\<rparr>)"
  by (simp add: excludes_every_chain_def chains_present_def sample_defs text_defs clean_defs Let_def)

text \<open>
  C3, amended. When the allow-list is not empty, excludes every chain present in the
  file, and every record line of the file carries a chain identifier, \<open>clean_pdb\<close>
  writes no line and raises the empty-result error.
\<close>

theorem excluded_chains_fail:
  assumes "fs input_pdb = Some content"
    and "keep_chains cfg = Some cs" and "cs \<noteq> []"
    and "excludes_every_chain cfg content"
    and "\<forall>l \<in> set (file_lines content). startswith_any l record_prefixes \<longrightarrow> chain_id_of l \<noteq> []"
  shows "clean_pdb fs input_pdb output_pdb cfg =
           (fs(output_pdb \<mapsto> []), Inl (RuntimeError empty_result_message))"
proof -
  let ?kc = "norm_keep_chains (keep_chains cfg)"
  let ?keeps = "keeps (remove_waters cfg) (remove_hetero cfg) ?kc (norm_keep_ligands (keep_ligands cfg))"
  have kc: "?kc = Some (map (\<lambda>k. upper (strip k)) cs)"
    using assms(2,3) by (simp add: norm_keep_chains_def)
  have rej: "\<not> ?keeps l" if l: "l \<in> set (file_lines content)" for l
  proof (cases "is_record l")
    case True
    with l assms(5) have ne: "chain_id_of l \<noteq> []" by (simp add: is_record_def)
    with l True have "chain_id_of l \<in> set (chains_present content)"
      by (auto simp: chains_present_def is_record_def)
    with assms(2,4) have "upper (chain_id_of l) \<notin> set (map (\<lambda>k. upper (strip k)) cs)"
      by (auto simp: excludes_every_chain_def list_all_iff)
    with ne kc assms(3) have "chain_rejected ?kc (chain_id_of l)"
      by (simp add: chain_rejected_def)
    then show ?thesis by (simp add: keeps_def)
  next
    case False
    then show ?thesis by (simp add: keeps_def)
  qed
  have none: "filter ?keeps ls = []" if "set ls \<subseteq> set (file_lines content)" for ls
    using that rej by (induction ls) auto
  have "written (clean_loop cfg (file_lines (if input_pdb = output_pdb then [] else content)) clean_init) = []"
    by (simp add: clean_loop_closed clean_init_def none)
  then show ?thesis
    using clean_pdb_unfold [of fs input_pdb content output_pdb cfg] assms(1) by (simp add: Let_def)
qed

theorem excluded_chains_fail_witness:
  "excludes_every_chain (only_chain ''B'') (atom_line_A @ hem_line_A)
   \<and> clean_pdb [''a.pdb'' \<mapsto> atom_line_A @ hem_line_A] ''a.pdb'' ''b.pdb'' (only_chain ''B'')
     = ([''a.pdb'' \<mapsto> atom_line_A @ hem_line_A, ''b.pdb'' \<mapsto> []],
        Inl (RuntimeError empty_result_message))"
  using excluded_chains_fail
          [of "[''a.pdb'' \<mapsto> atom_line_A @ hem_line_A]" "''a.pdb''" "atom_line_A @ hem_line_A"
              "only_chain ''B''" "[''B'']" "''b.pdb''"]
  by (simp add: excludes_every_chain_def chains_present_def sample_defs text_defs
        chain_id_of_def empty_result_message_def)

text \<open>
  C4, as stated, fails on a source whose lines end with carriage return and line feed:
  the reader hands the line over with a line feed only, and that is what is written, so
  the line of the destination is not, byte for byte, a line of the source.
\<close>

theorem clean_pdb_output_lines_counterexample:
  "split_lines atom_line_A_crlf = [atom_line_A_crlf]
   \<and> startswith_any atom_line_A_crlf record_prefixes
   \<and> fst (clean_pdb [''a.pdb'' \<mapsto> atom_line_A_crlf] ''a.pdb'' ''b.pdb'' default_filters) ''b.pdb''
       = Some atom_line_A
   \<and> split_lines atom_line_A = [atom_line_A]
   \<and> atom_line_A \<notin> set (split_lines atom_line_A_crlf)"
  by (simp add: atom_line_A_crlf_def sample_defs text_defs clean_defs Let_def)

text \<open>
  C4, amended. Every line of the destination file that \<open>clean_pdb\<close> leaves is,
  character for character, a line of the source as the text-mode reader delivers it
  (a carriage return with or without a line feed read as a line feed; these are the
  source's own lines, byte for byte, when it holds no carriage return) that starts with
  one of the four record prefixes. Lines of any other kind are neither copied nor
  counted: the result and the destination are those of the source with such lines
  deleted.
\<close>

theorem clean_pdb_output_lines:
  assumes "fs input_pdb = Some content"
  shows "(\<exists>out. fst (clean_pdb fs input_pdb output_pdb cfg) output_pdb = Some out
            \<and> (\<forall>l \<in> set (split_lines out).
                  l \<in> set (file_lines content) \<and> startswith_any l record_prefixes))
         \<and> (carriage_return \<notin> set content \<longrightarrow> file_lines content = split_lines content)
         \<and> (let records_only =
                   concat (filter (\<lambda>l. startswith_any l record_prefixes) (file_lines content));
                 fs_records_only = fs(input_pdb \<mapsto> records_only)
             in snd (clean_pdb fs_records_only input_pdb output_pdb cfg)
                  = snd (clean_pdb fs input_pdb output_pdb cfg)
                \<and> fst (clean_pdb fs_records_only input_pdb output_pdb cfg) output_pdb
                  = fst (clean_pdb fs input_pdb output_pdb cfg) output_pdb)"
proof -
  define src where "src = (if input_pdb = output_pdb then [] else content)"
  define s where "s = clean_loop cfg (file_lines src) clean_init"
  have unfold: "clean_pdb fs input_pdb output_pdb cfg =
          (fs(output_pdb \<mapsto> concat (written s)),
           if written s = [] then Inl (RuntimeError empty_result_message) else Inr (removed s))"
    using clean_pdb_unfold [of fs input_pdb content output_pdb cfg] assms
    by (simp add: s_def src_def Let_def)
  have lines: "split_lines (concat (written s)) = written s"
    unfolding s_def by (rule split_lines_written)
  have sub: "l \<in> set (file_lines content) \<and> startswith_any l record_prefixes"
    if "l \<in> set (written s)" for l
  proof -
    from that have "l \<in> set (file_lines src) \<and> is_record l"
      unfolding s_def by (rule written_subset)
    then show ?thesis
      by (cases "input_pdb = output_pdb") (simp_all add: src_def is_record_def file_lines_Nil)
  qed
  have first: "\<exists>out. fst (clean_pdb fs input_pdb output_pdb cfg) output_pdb = Some out
            \<and> (\<forall>l \<in> set (split_lines out).
                  l \<in> set (file_lines content) \<and> startswith_any l record_prefixes)"
    using unfold lines sub by simp
  have raw: "carriage_return \<notin> set content \<longrightarrow> file_lines content = split_lines content"
    by (simp add: file_lines_no_cr)
  define ro where "ro = concat (filter is_record (file_lines content))"
  define src' where "src' = (if input_pdb = output_pdb then [] else ro)"
  have "file_lines ro = filter is_record (file_lines content)"
    unfolding ro_def by (rule file_lines_filter)
  then have "clean_loop cfg (file_lines src') clean_init = s"
    by (simp add: src'_def s_def src_def clean_loop_skip_other)
  then have unfold': "clean_pdb (fs(input_pdb \<mapsto> ro)) input_pdb output_pdb cfg =
          ((fs(input_pdb \<mapsto> ro))(output_pdb \<mapsto> concat (written s)),
           if written s = [] then Inl (RuntimeError empty_result_message) else Inr (removed s))"
    using clean_pdb_unfold [of "fs(input_pdb \<mapsto> ro)" input_pdb ro output_pdb cfg]
    by (simp add: src'_def Let_def)
  have ro_eq: "concat (filter (\<lambda>l. startswith_any l record_prefixes) (file_lines content)) = ro"
    unfolding ro_def is_record_def ..
  have second: "let records_only =
                   concat (filter (\<lambda>l. startswith_any l record_prefixes) (file_lines content));
                 fs_records_only = fs(input_pdb \<mapsto> records_only)
             in snd (clean_pdb fs_records_only input_pdb output_pdb cfg)
                  = snd (clean_pdb fs input_pdb output_pdb cfg)
                \<and> fst (clean_pdb fs_records_only input_pdb output_pdb cfg) output_pdb
                  = fst (clean_pdb fs input_pdb output_pdb cfg) output_pdb"
    unfolding Let_def ro_eq unfold unfold' by simp
  from first raw second show ?thesis by blast
qed

theorem clean_pdb_output_lines_witness:
  "fst (clean_pdb [''a.pdb'' \<mapsto> ''HEADER'' @ [newline] @ atom_line_A_crlf @ ''REMARK END'' @ [newline] @ end_line]
         ''a.pdb'' ''b.pdb'' default_filters) ''b.pdb'' = Some (atom_line_A @ end_line)
   \<and> file_lines (''HEADER'' @ [newline] @ atom_line_A_crlf @ ''REMARK END'' @ [newline] @ end_line)
       = [''HEADER'' @ [newline], atom_line_A, ''REMARK END'' @ [newline], end_line]
   \<and> snd (clean_pdb [''a.pdb'' \<mapsto> ''HEADER'' @ [newline] @ atom_line_A_crlf @ ''REMARK END'' @ [newline] @ end_line]
         ''a.pdb'' ''b.pdb'' default_filters) = Inr \<lparr>waters = 0, hetero_residues = 0, skipped_chains = 0\<rparr>
   \<and> snd (clean_pdb [''a.pdb'' \<mapsto> atom_line_A @ end_line]
         ''a.pdb'' ''b.pdb'' default_filters) = Inr \<lparr>waters = 0, hetero_residues = 0, skipped_chains = 0\<rparr>"
  using clean_pdb_output_lines
          [of "[''a.pdb'' \<mapsto> ''HEADER'' @ [newline] @ atom_line_A_crlf @ ''REMARK END'' @ [newline] @ end_line]"
              "''a.pdb''" "''HEADER'' @ [newline] @ atom_line_A_crlf @ ''REMARK END'' @ [newline] @ end_line"
              "''b.pdb''" default_filters]
  by (simp add: atom_line_A_crlf_def sample_defs text_defs clean_defs Let_def)

text \<open>
  C9, as stated, fails: an end-marker line of 21 characters ends before the chain
  column, so its chain identifier is empty, but its columns 18 to 20 hold a water name
  and the water filter drops it.
\<close>

theorem short_marker_counterexample:
  "startswith end_line_with_water_name ''END''
   \<and> length end_line_with_water_name < 22
   \<and> chain_id_of end_line_with_water_name = []
   \<and> resname_of end_line_with_water_name = ''HOH''
   \<and> clean_pdb [''a.pdb'' \<mapsto> end_line_with_water_name] ''a.pdb'' ''b.pdb'' default_filters
     = ([''a.pdb'' \<mapsto> end_line_with_water_name, ''b.pdb'' \<mapsto> []],
        Inl (RuntimeError empty_result_message))"
  by (simp add: sample_defs text_defs clean_defs Let_def)

text \<open>
  C9, amended. Under every filter configuration, a line that starts with the terminator
  or end-marker prefix and has fewer than 20 characters has an empty chain identifier
  and an empty residue name, passes the three filters without touching a counter, and
  is written as it is; when the destination is another file than the source, the line
  is in the destination.
\<close>

theorem short_marker_line_written:
  assumes "startswith line ''TER'' \<or> startswith line ''END''"
    and "length line < 20"
    and "fs input_pdb = Some content"
    and "input_pdb \<noteq> output_pdb"
    and "line \<in> set (file_lines content)"
  shows "chain_id_of line = [] \<and> resname_of line = []
         \<and> (\<forall>rw rh kc kl s.
               written (clean_line rw rh kc kl line s) = written s @ [line]
               \<and> removed (clean_line rw rh kc kl line s) = removed s)
         \<and> (\<exists>out. fst (clean_pdb fs input_pdb output_pdb cfg) output_pdb = Some out
                \<and> line \<in> set (split_lines out))"
proof -
  have ids: "chain_id_of line = []" "resname_of line = []"
    using assms(2) by (simp_all add: chain_id_of_def resname_of_def)
  have k: "keeps rw rh kc kl line" for rw rh kc kl
    using assms(1,2) by (rule short_marker_kept)
  have step: "\<forall>rw rh kc kl s.
               written (clean_line rw rh kc kl line s) = written s @ [line]
               \<and> removed (clean_line rw rh kc kl line s) = removed s"
    using k by (simp add: clean_line_keeps)
  define s where "s = clean_loop cfg (file_lines content) clean_init"
  have mem: "line \<in> set (written s)"
    using assms(5) k by (simp add: s_def clean_loop_closed clean_init_def)
  have lines: "split_lines (concat (written s)) = written s"
    unfolding s_def by (rule split_lines_written)
  have "fst (clean_pdb fs input_pdb output_pdb cfg) = fs(output_pdb \<mapsto> concat (written s))"
    using clean_pdb_unfold [of fs input_pdb content output_pdb cfg] assms(3,4)
    by (simp add: s_def Let_def)
  with mem lines have "\<exists>out. fst (clean_pdb fs input_pdb output_pdb cfg) output_pdb = Some out
                \<and> line \<in> set (split_lines out)"
    by simp
  with ids step show ?thesis by blast
qed

theorem short_marker_line_written_witness:
  "startswith end_line ''END'' \<and> length end_line < 20
   \<and> end_line \<in> set (file_lines (atom_line_A @ end_line))
   \<and> fst (clean_pdb [''a.pdb'' \<mapsto> atom_line_A @ end_line] ''a.pdb'' ''b.pdb'' (only_chain ''A''))
       ''b.pdb'' = Some (atom_line_A @ end_line)
   \<and> split_lines (atom_line_A @ end_line) = [atom_line_A, end_line]"
  using short_marker_line_written
          [of end_line "[''a.pdb'' \<mapsto> atom_line_A @ end_line]" "''a.pdb''"
              "atom_line_A @ end_line" "''b.pdb''" "only_chain ''A''"]
  by (simp add: sample_defs text_defs clean_defs Let_def)

text \<open>
  C10. \<open>clean_pdb\<close> creates or truncates the destination before it reads a line: when it
  raises the empty-result error, the destination exists and is empty, whatever was at
  that path before; and a source that is its own destination is emptied and always
  yields that error.
\<close>

theorem clean_pdb_truncates_destination:
  assumes "fs input_pdb = Some content"
  shows "(snd (clean_pdb fs input_pdb output_pdb cfg) = Inl (RuntimeError empty_result_message)
            \<longrightarrow> fst (clean_pdb fs input_pdb output_pdb cfg) = fs(output_pdb \<mapsto> []))
         \<and> clean_pdb fs input_pdb input_pdb cfg
             = (fs(input_pdb \<mapsto> []), Inl (RuntimeError empty_result_message))"
proof -
  have "clean_loop cfg [] clean_init = clean_init" by (simp add: clean_loop_def)
  then have same: "clean_pdb fs input_pdb input_pdb cfg
             = (fs(input_pdb \<mapsto> []), Inl (RuntimeError empty_result_message))"
    using clean_pdb_unfold [of fs input_pdb content input_pdb cfg] assms
    by (simp add: Let_def clean_init_def)
  have "snd (clean_pdb fs input_pdb output_pdb cfg) = Inl (RuntimeError empty_result_message)
            \<longrightarrow> fst (clean_pdb fs input_pdb output_pdb cfg) = fs(output_pdb \<mapsto> [])"
    using clean_pdb_unfold [of fs input_pdb content output_pdb cfg] assms
    by (simp add: Let_def)
  from this same show ?thesis ..
qed

theorem clean_pdb_truncates_destination_witness:
  "clean_pdb [''a.pdb'' \<mapsto> water_line_B, ''b.pdb'' \<mapsto> atom_line_A] ''a.pdb'' ''b.pdb'' default_filters
     = ([''a.pdb'' \<mapsto> water_line_B, ''b.pdb'' \<mapsto> []], Inl (RuntimeError empty_result_message))
   \<and> clean_pdb [''a.pdb'' \<mapsto> atom_line_A] ''a.pdb'' ''a.pdb'' default_filters
     = ([''a.pdb'' \<mapsto> []], Inl (RuntimeError empty_result_message))"
  using clean_pdb_truncates_destination
          [of "[''a.pdb'' \<mapsto> water_line_B, ''b.pdb'' \<mapsto> atom_line_A]" "''a.pdb''" water_line_B
              "''b.pdb''" default_filters]
        clean_pdb_truncates_destination
          [of "[''a.pdb'' \<mapsto> atom_line_A]" "''a.pdb''" atom_line_A "''a.pdb''" default_filters]
  by (simp add: sample_defs text_defs clean_defs Let_def)

section \<open>Properties of \<open>download_pdb\<close>\<close>

lemmas run_defs =
  main_target_def main_try_def resolve_def add_h_step_def pdbqt_step_def
  add_hydrogens_with_obabel_def convert_to_pdbqt_with_obabel_def run_captured_def
  obabel_exe_def echo_def download_pdb_def get_checked_def raise_for_status_def pdb_url_def
  path_join_def basename_def splitext_root_def isalnum_def four_alnum_def upper_target_def
  is_ascii_def summary_json_def tool_json_def
  hydrogen_warning_def str_int_def str_nat.simps digit_char_def upto.simps

lemmas sample_run_defs =
  sample_env_def sample_world_def sample_options_def failing_net_def not_modified_env_def

lemma download_loop_all_fail:
  assumes "\<forall>i < length attempts. \<exists>e. get_checked E (length (trace w) + 3 * i) url = Inl e"
  shows "\<exists>w'. download_loop E url out_path retries attempts last_err w =
            (w', Inl (if attempts = [] then last_err
                      else (case get_checked E (length (trace w) + 3 * (length attempts - 1)) url of
                              Inl e \<Rightarrow> Some e | Inr b \<Rightarrow> None)))
          \<and> files w' = files w
          \<and> length (filter is_request (trace w')) = length (filter is_request (trace w)) + length attempts"
  using assms
proof (induction attempts arbitrary: last_err w)
  case Nil
  then show ?case by simp
next
  case (Cons a rest)
  from Cons.prems obtain e where e: "get_checked E (length (trace w)) url = Inl e"
    by fastforce
  define w2 where "w2 = w\<lparr>trace := trace w @ [Requested url]\<rparr>
      \<lparr>trace := trace (w\<lparr>trace := trace w @ [Requested url]\<rparr>) @
          [Printed (''[DOWNLOAD] Attempt '' @ str_int a @ ''/'' @ str_int retries @ '' failed: '' @ e),
           Slept 2]\<rparr>"
  have len: "length (trace w2) = length (trace w) + 3" by (simp add: w2_def)
  have fs: "files w2 = files w" by (simp add: w2_def)
  have req: "length (filter is_request (trace w2)) = Suc (length (filter is_request (trace w)))"
    by (simp add: w2_def is_request_def)
  have step: "download_loop E url out_path retries (a # rest) last_err w
                = download_loop E url out_path retries rest (Some e) w2"
    by (simp add: e w2_def Let_def)
  have "\<forall>i < length rest. \<exists>e. get_checked E (length (trace w2) + 3 * i) url = Inl e"
  proof (intro allI impI)
    fix i assume "i < length rest"
    then have "Suc i < length (a # rest)" by simp
    with Cons.prems obtain e' where "get_checked E (length (trace w) + 3 * Suc i) url = Inl e'"
      by blast
    then show "\<exists>e. get_checked E (length (trace w2) + 3 * i) url = Inl e"
      by (simp add: len add.commute add.left_commute)
  qed
  from Cons.IH [OF this, of "Some e"] obtain w' where
    w': "download_loop E url out_path retries rest (Some e) w2 =
            (w', Inl (if rest = [] then Some e
                      else (case get_checked E (length (trace w2) + 3 * (length rest - 1)) url of
                              Inl e \<Rightarrow> Some e | Inr b \<Rightarrow> None)))"
      "files w' = files w2"
      "length (filter is_request (trace w')) = length (filter is_request (trace w2)) + length rest"
    by blast
  have last: "(if rest = [] then Some e
                else (case get_checked E (length (trace w2) + 3 * (length rest - 1)) url of
                              Inl e \<Rightarrow> Some e | Inr b \<Rightarrow> None))
              = (case get_checked E (length (trace w) + 3 * (length (a # rest) - 1)) url of
                              Inl e \<Rightarrow> Some e | Inr b \<Rightarrow> None)"
  proof (cases rest)
    case Nil
    then show ?thesis by (simp add: e)
  next
    case (Cons b rest')
    then have "length (trace w2) + 3 * (length rest - 1) = length (trace w) + 3 * (length (a # rest) - 1)"
      by (simp add: len)
    with Cons show ?thesis by (simp only: list.simps if_False)
  qed
  show ?case
    unfolding step using w' fs req last by simp
qed

lemma error_status_fails:
  assumes "http_get E now url = Response status reason body" and "400 \<le> status" and "status < 600"
  shows "\<exists>e. get_checked E now url = Inl e"
  using assms by (simp add: get_checked_def raise_for_status_def)

lemma request_failure_fails:
  "http_get E now url = RequestFailed e \<Longrightarrow> get_checked E now url = Inl e"
  by (simp add: get_checked_def)

text \<open>
  C7, as stated, fails: a response with status 304 is no success, yet the status check
  lets it pass; \<open>download_pdb\<close> does not retry, writes the body to the destination and
  returns after one request.
\<close>

theorem unchecked_status_counterexample:
  "http_get not_modified_env 0 (pdb_url ''1abc'') = Response 304 ''Not Modified'' ''cached''
   \<and> download_pdb not_modified_env ''1abc'' ''out/1ABC.pdb'' 3 sample_world =
       (sample_world\<lparr>trace := [Requested ''https://files.rcsb.org/download/1ABC.pdb''],
                      files := (files sample_world)(''out/1ABC.pdb'' \<mapsto> ''cached'')\<rparr>,
        Inr ())"
  by (simp add: download_pdb_def get_checked_def raise_for_status_def pdb_url_def
        sample_run_defs text_defs upto.simps Let_def)

text \<open>
  C7, amended. A request exception and every status from 400 to 599 is a failure of the
  attempt, and is retried. When every attempt fails, \<open>download_pdb\<close> sends exactly
  \<open>retries\<close> requests and then raises the terminal error, whose message names the
  number of attempts and the reason of the last failure; the file system, and with it
  the destination path, is what it was before the call.
\<close>

theorem download_pdb_exhausts_retries:
  assumes "\<forall>i < nat retries. \<exists>e. get_checked E (length (trace w) + 3 * i) (pdb_url pdb_id) = Inl e"
  shows "(\<exists>w' reason.
            download_pdb E pdb_id out_path retries w =
              (w', Inl (RuntimeError (''Failed to download '' @ pdb_id @ '' after ''
                          @ str_int retries @ '' attempts: '' @ reason)))
            \<and> files w' = files w
            \<and> length (filter is_request (trace w'))
                = length (filter is_request (trace w)) + nat retries
            \<and> (0 < retries \<longrightarrow>
                 get_checked E (length (trace w) + 3 * (nat retries - 1)) (pdb_url pdb_id)
                   = Inl reason))
         \<and> (\<forall>now url status reason body.
              http_get E now url = Response status reason body \<and> 400 \<le> status \<and> status < 600
                \<longrightarrow> (\<exists>e. get_checked E now url = Inl e))
         \<and> (\<forall>now url e. http_get E now url = RequestFailed e \<longrightarrow> get_checked E now url = Inl e)"
proof -
  have len: "length [1..retries] = nat retries" by simp
  from assms have "\<forall>i < length [1..retries]. \<exists>e. get_checked E (length (trace w) + 3 * i) (pdb_url pdb_id) = Inl e"
    by (simp only: len)
  from download_loop_all_fail [OF this, of out_path retries None]
  obtain w' where w':
    "download_loop E (pdb_url pdb_id) out_path retries [1..retries] None w =
       (w', Inl (if [1..retries] = [] then None
                 else (case get_checked E (length (trace w) + 3 * (length [1..retries] - 1)) (pdb_url pdb_id) of
                         Inl e \<Rightarrow> Some e | Inr b \<Rightarrow> None)))"
    "files w' = files w"
    "length (filter is_request (trace w')) = length (filter is_request (trace w)) + length [1..retries]"
    by blast
  have first: "\<exists>w' reason.
            download_pdb E pdb_id out_path retries w =
              (w', Inl (RuntimeError (''Failed to download '' @ pdb_id @ '' after ''
                          @ str_int retries @ '' attempts: '' @ reason)))
            \<and> files w' = files w
            \<and> length (filter is_request (trace w'))
                = length (filter is_request (trace w)) + nat retries
            \<and> (0 < retries \<longrightarrow>
                 get_checked E (length (trace w) + 3 * (nat retries - 1)) (pdb_url pdb_id)
                   = Inl reason)"
  proof (cases "0 < retries")
    case False
    then have "[1..retries] = []" by simp
    with w' False show ?thesis
      by (simp add: download_pdb_def)
  next
    case True
    then have ne: "[1..retries] \<noteq> []" by simp
    from True have "nat retries - 1 < nat retries" by simp
    with assms obtain e where
      e: "get_checked E (length (trace w) + 3 * (nat retries - 1)) (pdb_url pdb_id) = Inl e"
      by blast
    with w' ne True show ?thesis
      by (simp add: download_pdb_def len)
  qed
  with error_status_fails request_failure_fails show ?thesis by blast
qed

theorem download_pdb_exhausts_retries_witness:
  "download_pdb sample_env ''1abc'' ''out/1ABC.pdb'' 3 sample_world =
     (sample_world\<lparr>trace :=
        [Requested ''https://files.rcsb.org/download/1ABC.pdb'',
         Printed ''[DOWNLOAD] Attempt 1/3 failed: timed out'', Slept 2,
         Requested ''https://files.rcsb.org/download/1ABC.pdb'',
         Printed ''[DOWNLOAD] Attempt 2/3 failed: timed out'', Slept 2,
         Requested ''https://files.rcsb.org/download/1ABC.pdb'',
         Printed (''[DOWNLOAD] Attempt 3/3 failed: 404 Client Error: Not Found for url: ''
                    @ ''https://files.rcsb.org/download/1ABC.pdb''), Slept 2]\<rparr>,
      Inl (RuntimeError (''Failed to download 1abc after 3 attempts: ''
             @ ''404 Client Error: Not Found for url: https://files.rcsb.org/download/1ABC.pdb'')))"
  using download_pdb_exhausts_retries [of 3 sample_env sample_world "''1abc''" "''out/1ABC.pdb''"]
  by (simp add: download_pdb_def get_checked_def raise_for_status_def pdb_url_def sample_env_def
        sample_world_def failing_net_def str_int_def str_nat.simps digit_char_def text_defs
        upto.simps Let_def)

section \<open>Properties of the batch loop\<close>

text \<open>
  C5. A target that is neither an existing file nor a string of exactly four alphanumeric
  characters (the test of line 189) fails resolution on the spot: the iteration sends no
  request, leaves the file system as it was, prints the error and yields the error entry.
\<close>

theorem invalid_target_not_fetched:
  assumes "files w t = None" and "\<not> four_alnum E t"
  shows "resolve E opts t w = (w, Inl (TyperExit (''Invalid PDB identifier or file path: '' @ t)))
         \<and> main_target E opts t w =
             (w\<lparr>trace := trace w @ [Printed (''[ERROR] processing '' @ t
                                       @ '': Invalid PDB identifier or file path: '' @ t)]\<rparr>,
              [(''input'', JStr t), (''error'', JStr (''Invalid PDB identifier or file path: '' @ t))])
         \<and> filter is_request (trace (fst (main_target E opts t w))) = filter is_request (trace w)
         \<and> files (fst (main_target E opts t w)) = files w"
proof -
  have r: "resolve E opts t w = (w, Inl (TyperExit (''Invalid PDB identifier or file path: '' @ t)))"
    using assms by (auto simp: resolve_def)
  then have m: "main_target E opts t w =
             (w\<lparr>trace := trace w @ [Printed (''[ERROR] processing '' @ t
                                       @ '': Invalid PDB identifier or file path: '' @ t)]\<rparr>,
              [(''input'', JStr t), (''error'', JStr (''Invalid PDB identifier or file path: '' @ t))])"
    by (simp add: main_target_def main_try_def echo_def)
  from r m show ?thesis by (simp add: is_request_def)
qed

theorem invalid_target_not_fetched_witness:
  "files sample_world ''abcde'' = None \<and> is_ascii ''abcde'' \<and> length ''abcde'' = 5
   \<and> isalnum ''abcde'' \<and> \<not> four_alnum sample_env ''abcde''
   \<and> main_target sample_env sample_options ''abcde'' sample_world =
       (sample_world\<lparr>trace :=
          [Printed ''[ERROR] processing abcde: Invalid PDB identifier or file path: abcde'']\<rparr>,
        [(''input'', JStr ''abcde''),
         (''error'', JStr ''Invalid PDB identifier or file path: abcde'')])"
  using invalid_target_not_fetched [of sample_world "''abcde''" sample_env sample_options]
  by (simp add: sample_world_def isalnum_def four_alnum_def is_ascii_def)

lemma map_fst_dict_set:
  "map fst (dict_set d k v) = (if k \<in> set (map fst d) then map fst d else map fst d @ [k])"
  by (induction d) (auto simp: rev_image_eqI)

lemma map_of_dict_set:
  "map_of (dict_set d k v) k' = (if k' = k then Some v else map_of d k')"
  by (induction d) auto

lemma add_h_step_keys:
  assumes "add_h_step E opts pdb_label processed report w = (w', Inr (report', processed'))"
  shows "\<exists>ks. map fst report' = map fst report @ ks
               \<and> set ks \<subseteq> {''add_hydrogens'', ''add_hydrogens_skipped''}"
proof -
  have ext: "\<exists>ks. map fst (dict_set report k v) = map fst report @ ks
               \<and> set ks \<subseteq> {''add_hydrogens'', ''add_hydrogens_skipped''}"
    if "k \<in> {''add_hydrogens'', ''add_hydrogens_skipped''}" for k and v :: jval
    using that by (cases "k \<in> set (map fst report)") (simp_all only: map_fst_dict_set if_True if_False, auto)
  have "report' = report \<or> (\<exists>k v. k \<in> {''add_hydrogens'', ''add_hydrogens_skipped''}
                                  \<and> report' = dict_set report k v)"
    using assms
    by (auto simp: add_h_step_def Let_def split: if_splits prod.splits sum.splits)
  then show ?thesis
  proof
    assume "report' = report"
    then show ?thesis by simp
  next
    assume "\<exists>k v. k \<in> {''add_hydrogens'', ''add_hydrogens_skipped''} \<and> report' = dict_set report k v"
    then show ?thesis using ext by blast
  qed
qed

lemma pdbqt_step_keys:
  assumes "pdbqt_step E opts pdb_label processed report w = (w', Inr report')"
  shows "\<exists>ks. map fst report' = map fst report @ ks \<and> set ks \<subseteq> {''pdbqt'', ''pdbqt_skipped''}"
proof -
  have ext: "\<exists>ks. map fst (dict_set report k v) = map fst report @ ks
               \<and> set ks \<subseteq> {''pdbqt'', ''pdbqt_skipped''}"
    if "k \<in> {''pdbqt'', ''pdbqt_skipped''}" for k and v :: jval
    using that by (cases "k \<in> set (map fst report)") (simp_all only: map_fst_dict_set if_True if_False, auto)
  have "report' = report \<or> (\<exists>k v. k \<in> {''pdbqt'', ''pdbqt_skipped''} \<and> report' = dict_set report k v)"
    using assms
    by (auto simp: pdbqt_step_def Let_def split: if_splits prod.splits sum.splits)
  then show ?thesis
  proof
    assume "report' = report"
    then show ?thesis by simp
  next
    assume "\<exists>k v. k \<in> {''pdbqt'', ''pdbqt_skipped''} \<and> report' = dict_set report k v"
    then show ?thesis using ext by blast
  qed
qed

lemma add_h_step_input:
  assumes "add_h_step E opts pdb_label processed report w = (w', Inr (report', processed'))"
  shows "map_of report' ''input'' = map_of report ''input''"
  using assms
  by (auto simp: add_h_step_def Let_def map_of_dict_set split: if_splits prod.splits sum.splits)

lemma pdbqt_step_input:
  assumes "pdbqt_step E opts pdb_label processed report w = (w', Inr report')"
  shows "map_of report' ''input'' = map_of report ''input''"
  using assms
  by (auto simp: pdbqt_step_def Let_def map_of_dict_set split: if_splits prod.splits sum.splits)

lemma main_try_success:
  assumes "main_try E opts t w = (w', Inr report)"
  shows "is_success_entry report \<and> map_of report ''input'' = Some (JStr t)"
proof -
  from assms obtain w1 fetched pdb_label fs2 removed_counts w3 report2 processed w4 where
    a: "add_h_step E opts pdb_label (path_join (out_dir opts) (pdb_label @ ''_clean.pdb''))
          (dict_set [(''input'', JStr t), (''fetched'', JStr fetched),
                     (''cleaned'', JStr (path_join (out_dir opts) (pdb_label @ ''_clean.pdb'')))]
             ''removed'' (summary_json removed_counts))
          (w1\<lparr>files := fs2\<rparr>) = (w3, Inr (report2, processed))"
    and p: "pdbqt_step E opts pdb_label processed report2 w3 = (w4, Inr report)"
    by (auto simp: main_try_def Let_def split: prod.splits sum.splits)
  from add_h_step_keys [OF a] obtain ks where
    ks: "map fst report2 = [''input'', ''fetched'', ''cleaned'', ''removed''] @ ks"
        "set ks \<subseteq> {''add_hydrogens'', ''add_hydrogens_skipped''}"
    by auto
  from pdbqt_step_keys [OF p] obtain ks' where
    ks': "map fst report = map fst report2 @ ks'" "set ks' \<subseteq> {''pdbqt'', ''pdbqt_skipped''}"
    by auto
  have "''error'' \<notin> set ks" "''error'' \<notin> set ks'"
    using ks(2) ks'(2) by auto
  with ks(1) ks'(1) have "is_success_entry report"
    by (simp add: is_success_entry_def)
  moreover have "map_of report ''input'' = Some (JStr t)"
    using add_h_step_input [OF a] pdbqt_step_input [OF p] by simp
  ultimately show ?thesis ..
qed

lemma error_entry_not_success: "is_error_entry r \<Longrightarrow> \<not> is_success_entry r"
  by (simp add: is_error_entry_def is_success_entry_def)

lemma main_target_entry:
  assumes "main_target E opts t w = (w', entry)"
  shows "map_of entry ''input'' = Some (JStr t) \<and> (is_error_entry entry \<noteq> is_success_entry entry)"
proof (cases "snd (main_try E opts t w)")
  case (Inl e)
  then have "entry = [(''input'', JStr t), (''error'', JStr (str_exn e))]"
    using assms by (cases "main_try E opts t w") (simp add: main_target_def)
  then have "is_error_entry entry" "map_of entry ''input'' = Some (JStr t)"
    by (simp_all add: is_error_entry_def)
  then show ?thesis using error_entry_not_success by blast
next
  case (Inr report)
  then obtain w1 where m: "main_try E opts t w = (w1, Inr report)"
    by (cases "main_try E opts t w") simp
  with assms have "entry = report" by (simp add: main_target_def)
  with main_try_success [OF m] show ?thesis
    using error_entry_not_success by blast
qed

lemma main_loop_entries:
  "\<exists>new. snd (main_loop E opts targets (w, reports)) = reports @ new
         \<and> list_all2 (\<lambda>t entry. map_of entry ''input'' = Some (JStr t)
                          \<and> (is_error_entry entry \<noteq> is_success_entry entry)) targets new"
proof (induction targets arbitrary: w reports)
  case Nil
  then show ?case by simp
next
  case (Cons t ts)
  obtain w' entry where m: "main_target E opts t w = (w', entry)"
    by (cases "main_target E opts t w")
  from Cons.IH [of w' "reports @ [entry]"] obtain new where
    new: "snd (main_loop E opts ts (w', reports @ [entry])) = (reports @ [entry]) @ new"
      "list_all2 (\<lambda>t entry. map_of entry ''input'' = Some (JStr t)
                          \<and> (is_error_entry entry \<noteq> is_success_entry entry)) ts new"
    by blast
  from main_target_entry [OF m] new(2)
  have "list_all2 (\<lambda>t entry. map_of entry ''input'' = Some (JStr t)
                          \<and> (is_error_entry entry \<noteq> is_success_entry entry)) (t # ts) (entry # new)"
    by simp
  moreover have "snd (main_loop E opts (t # ts) (w, reports)) = reports @ (entry # new)"
    using m new(1) by simp
  ultimately show ?case by blast
qed

text \<open>
  C6. The loop over the targets appends exactly one entry per target to the report list,
  in the order of the targets and whatever happens to the others; the entry names its
  target and is either an error entry or a successful result, never both and never
  neither.
\<close>

theorem batch_isolation:
  "length (snd (main_loop E opts targets (w, reports))) = length reports + length targets
   \<and> take (length reports) (snd (main_loop E opts targets (w, reports))) = reports
   \<and> (\<forall>i < length targets.
        map_of (snd (main_loop E opts targets (w, reports)) ! (length reports + i)) ''input''
          = Some (JStr (targets ! i))
        \<and> (is_error_entry (snd (main_loop E opts targets (w, reports)) ! (length reports + i))
             \<noteq> is_success_entry (snd (main_loop E opts targets (w, reports)) ! (length reports + i))))"
proof -
  from main_loop_entries [of E opts targets w reports] obtain new where
    new: "snd (main_loop E opts targets (w, reports)) = reports @ new"
      "list_all2 (\<lambda>t entry. map_of entry ''input'' = Some (JStr t)
                          \<and> (is_error_entry entry \<noteq> is_success_entry entry)) targets new"
    by blast
  from new(2) have len: "length new = length targets"
    by (simp add: list_all2_lengthD)
  from new(2) have "\<forall>i < length targets. map_of (new ! i) ''input'' = Some (JStr (targets ! i))
                          \<and> (is_error_entry (new ! i) \<noteq> is_success_entry (new ! i))"
    by (simp add: list_all2_conv_all_nth)
  with len show ?thesis
    unfolding new(1) by simp
qed

theorem batch_isolation_witness:
  "snd (main_loop sample_env sample_options [''abcde'', ''1abc.pdb''] (sample_world, [])) =
     [[(''input'', JStr ''abcde''),
       (''error'', JStr ''Invalid PDB identifier or file path: abcde'')],
      [(''input'', JStr ''1abc.pdb''), (''fetched'', JStr ''1abc.pdb''),
       (''cleaned'', JStr ''out/1abc_clean.pdb''),
       (''removed'', JObj [(''waters'', JInt 1), (''hetero_residues'', JInt 0),
                           (''skipped_chains'', JInt 0)]),
       (''add_hydrogens'',
          JObj [(''cmd'', JStr ''/usr/bin/obabel out/1abc_clean.pdb -O out/1abc_added_h.pdb -h''),
                (''rc'', JInt 1), (''output'', JStr ''failed'')]),
       (''pdbqt'',
          JObj [(''cmd'', JStr ''/usr/bin/obabel out/1abc_clean.pdb -O out/1abc.pdbqt''),
                (''rc'', JInt 0), (''output'', JStr ''1 molecule converted'')])]]
   \<and> is_error_entry (snd (main_loop sample_env sample_options [''abcde'', ''1abc.pdb''] (sample_world, [])) ! 0)
   \<and> is_success_entry (snd (main_loop sample_env sample_options [''abcde'', ''1abc.pdb''] (sample_world, [])) ! 1)"
proof -
  have run: "snd (main_loop sample_env sample_options [''abcde'', ''1abc.pdb''] (sample_world, [])) =
     [[(''input'', JStr ''abcde''),
       (''error'', JStr ''Invalid PDB identifier or file path: abcde'')],
      [(''input'', JStr ''1abc.pdb''), (''fetched'', JStr ''1abc.pdb''),
       (''cleaned'', JStr ''out/1abc_clean.pdb''),
       (''removed'', JObj [(''waters'', JInt 1), (''hetero_residues'', JInt 0),
                           (''skipped_chains'', JInt 0)]),
       (''add_hydrogens'',
          JObj [(''cmd'', JStr ''/usr/bin/obabel out/1abc_clean.pdb -O out/1abc_added_h.pdb -h''),
                (''rc'', JInt 1), (''output'', JStr ''failed'')]),
       (''pdbqt'',
          JObj [(''cmd'', JStr ''/usr/bin/obabel out/1abc_clean.pdb -O out/1abc.pdbqt''),
                (''rc'', JInt 0), (''output'', JStr ''1 molecule converted'')])]]"
    by (simp add: run_defs sample_run_defs sample_defs clean_defs text_defs Let_def)
  show ?thesis
    using batch_isolation [of sample_env sample_options "[''abcde'', ''1abc.pdb'']" sample_world "[]"]
    unfolding run by (simp add: is_error_entry_def is_success_entry_def)
qed

text \<open>
  C8. When hydrogen addition is enabled, the tool is found and its run exits with a
  non-zero code, the target still ends with a successful result and no exception: the
  report holds the command, the exit code and the captured output under
  \<open>add_hydrogens\<close>, the warning is printed, and the conversion that follows, if enabled,
  is run on the cleaned file.
\<close>

theorem hydrogen_failure_continues:
  assumes "resolve E opts t w = (w1, Inr (fetched, pdb_label))"
    and "cleaned = path_join (out_dir opts) (pdb_label @ ''_clean.pdb'')"
    and "added_h = path_join (out_dir opts) (pdb_label @ ''_added_h.pdb'')"
    and "pdbqt = path_join (out_dir opts) (pdb_label @ ''.pdbqt'')"
    and "clean_pdb (files w1) fetched cleaned (filters opts) = (fs2, Inr removed_counts)"
    and "auto_add_h opts" and "obabel_ready opts" and "obabel_exe E = Some exe"
    and "run_proc E (Suc (length (trace w1))) [exe, cleaned, ''-O'', added_h, ''-h''] fs2
           = ((code, out), fs3)"
    and "code \<noteq> 0"
  shows "\<exists>w' report.
           main_try E opts t w = (w', Inr report)
           \<and> main_target E opts t w = (w', report)
           \<and> is_success_entry report
           \<and> map_of report ''add_hydrogens''
               = Some (JObj [(''cmd'', JStr (join_blank [exe, cleaned, ''-O'', added_h, ''-h''])),
                             (''rc'', JInt code), (''output'', JStr out)])
           \<and> trace w' =
               trace w1
                 @ [Printed (''[OBABEL] Adding hydrogens to '' @ cleaned @ '' -> '' @ added_h),
                    Ran [exe, cleaned, ''-O'', added_h, ''-h''],
                    Printed hydrogen_warning]
                 @ (if auto_pdbqt opts
                    then [Printed (''[OBABEL] Converting '' @ cleaned @ '' -> '' @ pdbqt),
                          Ran [exe, cleaned, ''-O'', pdbqt]]
                    else [])
                 @ [Printed (''[DONE] '' @ pdb_label)]
           \<and> (auto_pdbqt opts \<longrightarrow>
                 (\<exists>code2 out2.
                    map_of report ''pdbqt''
                      = Some (JObj [(''cmd'', JStr (join_blank [exe, cleaned, ''-O'', pdbqt])),
                                    (''rc'', JInt code2), (''output'', JStr out2)])))"
proof -
  define report1 where
    "report1 = [(''input'', JStr t), (''fetched'', JStr fetched), (''cleaned'', JStr cleaned),
                (''removed'', summary_json removed_counts)]"
  have set_removed:
    "dict_set [(''input'', JStr t), (''fetched'', JStr fetched), (''cleaned'', JStr cleaned)]
       ''removed'' (summary_json removed_counts) = report1"
    by (simp add: report1_def)
  define report2 where
    "report2 = dict_set report1 ''add_hydrogens''
                 (JObj [(''cmd'', JStr (join_blank [exe, cleaned, ''-O'', added_h, ''-h''])),
                        (''rc'', JInt code), (''output'', JStr out)])"
  define w3 where
    "w3 = w1\<lparr>files := fs3,
              trace := trace w1
                 @ [Printed (''[OBABEL] Adding hydrogens to '' @ cleaned @ '' -> '' @ added_h),
                    Ran [exe, cleaned, ''-O'', added_h, ''-h''],
                    Printed hydrogen_warning]\<rparr>"
  have h: "add_h_step E opts pdb_label cleaned report1 (w1\<lparr>files := fs2\<rparr>)
             = (w3, Inr (report2, cleaned))"
    using assms(6-10)
    by (simp add: add_h_step_def add_hydrogens_with_obabel_def run_captured_def echo_def Let_def
          assms(3) [symmetric] tool_json_def report2_def w3_def)
  have add: "map_of report2 ''add_hydrogens''
               = Some (JObj [(''cmd'', JStr (join_blank [exe, cleaned, ''-O'', added_h, ''-h''])),
                             (''rc'', JInt code), (''output'', JStr out)])"
    by (simp add: report2_def map_of_dict_set)
  show ?thesis
  proof (cases "auto_pdbqt opts")
    case False
    then have p: "pdbqt_step E opts pdb_label cleaned report2 w3 = (w3, Inr report2)"
      by (simp add: pdbqt_step_def)
    have m: "main_try E opts t w = (echo (''[DONE] '' @ pdb_label) w3, Inr report2)"
      using assms(1,5) h p
      by (simp only: main_try_def Let_def assms(2) [symmetric] set_removed prod.case sum.case)
    then have mt: "main_target E opts t w = (echo (''[DONE] '' @ pdb_label) w3, report2)"
      by (simp add: main_target_def)
    from main_try_success [OF m] have "is_success_entry report2" ..
    with m mt add False show ?thesis
      by (simp add: echo_def w3_def)
  next
    case True
    obtain code2 out2 fs4 where
      r: "run_proc E (length (trace w3) + 1) [exe, cleaned, ''-O'', pdbqt] fs3 = ((code2, out2), fs4)"
      by (metis surj_pair)
    define report3 where
      "report3 = dict_set report2 ''pdbqt''
                   (JObj [(''cmd'', JStr (join_blank [exe, cleaned, ''-O'', pdbqt])),
                          (''rc'', JInt code2), (''output'', JStr out2)])"
    define w4 where
      "w4 = w3\<lparr>files := fs4,
                trace := trace w3
                   @ [Printed (''[OBABEL] Converting '' @ cleaned @ '' -> '' @ pdbqt),
                      Ran [exe, cleaned, ''-O'', pdbqt]]\<rparr>"
    have fs3: "files w3 = fs3" by (simp add: w3_def)
    have p: "pdbqt_step E opts pdb_label cleaned report2 w3 = (w4, Inr report3)"
      using True assms(7,8) r
      by (simp add: pdbqt_step_def convert_to_pdbqt_with_obabel_def run_captured_def echo_def
            Let_def assms(4) [symmetric] tool_json_def report3_def w4_def fs3)
    have m: "main_try E opts t w = (echo (''[DONE] '' @ pdb_label) w4, Inr report3)"
      using assms(1,5) h p
      by (simp only: main_try_def Let_def assms(2) [symmetric] set_removed prod.case sum.case)
    then have mt: "main_target E opts t w = (echo (''[DONE] '' @ pdb_label) w4, report3)"
      by (simp add: main_target_def)
    from main_try_success [OF m] have s: "is_success_entry report3" ..
    have add3: "map_of report3 ''add_hydrogens''
               = Some (JObj [(''cmd'', JStr (join_blank [exe, cleaned, ''-O'', added_h, ''-h''])),
                             (''rc'', JInt code), (''output'', JStr out)])"
      using add by (simp add: report3_def map_of_dict_set)
    have q: "map_of report3 ''pdbqt''
               = Some (JObj [(''cmd'', JStr (join_blank [exe, cleaned, ''-O'', pdbqt])),
                             (''rc'', JInt code2), (''output'', JStr out2)])"
      by (simp add: report3_def map_of_dict_set)
    have tr: "trace (echo (''[DONE] '' @ pdb_label) w4) =
               trace w1
                 @ [Printed (''[OBABEL] Adding hydrogens to '' @ cleaned @ '' -> '' @ added_h),
                    Ran [exe, cleaned, ''-O'', added_h, ''-h''],
                    Printed hydrogen_warning]
                 @ [Printed (''[OBABEL] Converting '' @ cleaned @ '' -> '' @ pdbqt),
                    Ran [exe, cleaned, ''-O'', pdbqt]]
                 @ [Printed (''[DONE] '' @ pdb_label)]"
      by (simp add: echo_def w4_def w3_def)
    from m mt s add3 q tr True show ?thesis
      by (intro exI [of _ "echo (''[DONE] '' @ pdb_label) w4"] exI [of _ report3]) auto
  qed
qed

theorem hydrogen_failure_continues_witness:
  "main_target sample_env sample_options ''1abc.pdb'' sample_world =
     (\<lparr>files = [''1abc.pdb'' \<mapsto> atom_line_A @ water_line_B @ end_line,
                ''out/1abc_clean.pdb'' \<mapsto> atom_line_A @ end_line],
       trace = [Printed ''[OBABEL] Adding hydrogens to out/1abc_clean.pdb -> out/1abc_added_h.pdb'',
                Ran [''/usr/bin/obabel'', ''out/1abc_clean.pdb'', ''-O'', ''out/1abc_added_h.pdb'', ''-h''],
                Printed hydrogen_warning,
                Printed ''[OBABEL] Converting out/1abc_clean.pdb -> out/1abc.pdbqt'',
                Ran [''/usr/bin/obabel'', ''out/1abc_clean.pdb'', ''-O'', ''out/1abc.pdbqt''],
                Printed ''[DONE] 1abc'']\<rparr>,
      [(''input'', JStr ''1abc.pdb''), (''fetched'', JStr ''1abc.pdb''),
       (''cleaned'', JStr ''out/1abc_clean.pdb''),
       (''removed'', JObj [(''waters'', JInt 1), (''hetero_residues'', JInt 0),
                           (''skipped_chains'', JInt 0)]),
       (''add_hydrogens'',
          JObj [(''cmd'', JStr ''/usr/bin/obabel out/1abc_clean.pdb -O out/1abc_added_h.pdb -h''),
                (''rc'', JInt 1), (''output'', JStr ''failed'')]),
       (''pdbqt'',
          JObj [(''cmd'', JStr ''/usr/bin/obabel out/1abc_clean.pdb -O out/1abc.pdbqt''),
                (''rc'', JInt 0), (''output'', JStr ''1 molecule converted'')])])"
  using hydrogen_failure_continues
          [of sample_env sample_options "''1abc.pdb''" sample_world sample_world "''1abc.pdb''"
              "''1abc''" "''out/1abc_clean.pdb''" "''out/1abc_added_h.pdb''" "''out/1abc.pdbqt''"
              "[''1abc.pdb'' \<mapsto> atom_line_A @ water_line_B @ end_line,
                ''out/1abc_clean.pdb'' \<mapsto> atom_line_A @ end_line]"
              "\<lparr>waters = 1, hetero_residues = 0, skipped_chains = 0\<rparr>"
              "''/usr/bin/obabel''" 1 "''failed''"
              "[''1abc.pdb'' \<mapsto> atom_line_A @ water_line_B @ end_line,
                ''out/1abc_clean.pdb'' \<mapsto> atom_line_A @ end_line]"]
  by (simp add: run_defs sample_run_defs sample_defs clean_defs text_defs Let_def)

end
